theory Spec2Isabelle
  imports Main
begin

section \<open>Data model (types.go)\<close>

text \<open>
  The Go structs \<^verbatim>\<open>Config\<close>, \<^verbatim>\<open>TrackProperties\<close>, \<^verbatim>\<open>Track\<close> and \<^verbatim>\<open>MkvInfo\<close> become
  records with the fields of the source. A Go \<^verbatim>\<open>int\<close> track id is an \<^typ>\<open>int\<close>: ids are
  only compared and printed, never computed with. Go strings are \<^typ>\<open>string\<close>.
\<close>

record Config =
  VideoLanguage :: string
  AudioLanguages :: "string list"
  DefaultAudio :: string
  SubtitleLanguages :: "string list"

record TrackProperties =
  Language :: string
  DefaultTrack :: bool

record Track =
  ID :: int
  Type :: string
  Properties :: TrackProperties

record MkvInfo =
  Tracks :: "Track list"

text \<open>
  \<^verbatim>\<open>type ActionType string\<close> with its three constants. The code compares action types
  as strings and prints them into the cache key, so the model keeps them as strings.
\<close>

type_synonym ActionType = string

definition ActionAll :: ActionType where
  "ActionAll = ''all''"

definition ActionAudio :: ActionType where
  "ActionAudio = ''audio''"

definition ActionSubtitle :: ActionType where
  "ActionSubtitle = ''subtitle''"

section \<open>The language-inference rule (determineTargetVideoLanguage)\<close>

text \<open>
  The loop of \<^verbatim>\<open>determineTargetVideoLanguage\<close> over \<^verbatim>\<open>info.Tracks\<close>, with its two
  mutable variables \<^verbatim>\<open>hasPreferredAudio\<close> and \<^verbatim>\<open>firstAudioLang\<close> passed as a pair.
  The source uses the empty string as "not yet set" for \<^verbatim>\<open>firstAudioLang\<close>.
\<close>

fun audioScan :: "Track list \<Rightarrow> string \<Rightarrow> bool \<times> string \<Rightarrow> bool \<times> string" where
  "audioScan [] preferredLang st = st"
| "audioScan (t # ts) preferredLang (hasPreferredAudio, firstAudioLang) =
     (if Type t = ''audio'' then
        audioScan ts preferredLang
          (if Language (Properties t) = preferredLang then True else hasPreferredAudio,
           if firstAudioLang = '''' then Language (Properties t) else firstAudioLang)
      else audioScan ts preferredLang (hasPreferredAudio, firstAudioLang))"

definition determineTargetVideoLanguage :: "Track \<Rightarrow> MkvInfo \<Rightarrow> string \<Rightarrow> string \<times> bool" where
  "determineTargetVideoLanguage videoTrack info preferredLang =
     (let current = Language (Properties videoTrack) in
      if current = preferredLang then (preferredLang, False)
      else if current \<noteq> ''und'' \<and> current \<noteq> ''unk'' then (preferredLang, True)
      else
        (case audioScan (Tracks info) preferredLang (False, '''') of
           (hasPreferredAudio, firstAudioLang) \<Rightarrow>
             if hasPreferredAudio then (preferredLang, True)
             else if firstAudioLang \<noteq> '''' then (firstAudioLang, True)
             else (''und'', False)))"

text \<open>Vocabulary for the statements: the audio tracks of a file, in declaration order.\<close>

definition audioTracks :: "Track list \<Rightarrow> Track list" where
  "audioTracks ts = filter (\<lambda>t. Type t = ''audio'') ts"

definition trackLanguage :: "Track \<Rightarrow> string" where
  "trackLanguage t = Language (Properties t)"

definition audioLanguages :: "Track list \<Rightarrow> string list" where
  "audioLanguages ts = map trackLanguage (audioTracks ts)"

definition mkTrack :: "int \<Rightarrow> string \<Rightarrow> string \<Rightarrow> bool \<Rightarrow> Track" where
  "mkTrack i ty lang dflt =
     \<lparr>ID = i, Type = ty, Properties = \<lparr>Language = lang, DefaultTrack = dflt\<rparr>\<rparr>"

section \<open>Compliance evaluation and plan construction (remuxFile)\<close>

text \<open>The closure \<^verbatim>\<open>isInList\<close>: a linear search with an early return.\<close>

fun isInList :: "string \<Rightarrow> string list \<Rightarrow> bool" where
  "isInList lang [] = False"
| "isInList lang (l # list) = (if l = lang then True else isInList lang list)"

text \<open>
  The body of the first loop of \<^verbatim>\<open>remuxFile\<close>, on the pair of its two flags
  \<^verbatim>\<open>(hasVideo, needsFix)\<close>. The three \<^verbatim>\<open>if track.Type == ...\<close> blocks run in the
  order of the source.
\<close>

definition checkTrack ::
  "ActionType \<Rightarrow> Config \<Rightarrow> MkvInfo \<Rightarrow> Track \<Rightarrow> bool \<times> bool \<Rightarrow> bool \<times> bool" where
  "checkTrack actionType cfg info track st =
     (case st of (hasVideo0, needsFix0) \<Rightarrow>
        let hasVideo = (if Type track = ''video'' then True else hasVideo0);
            needsFix1 =
              (if Type track = ''video''
                  \<and> (actionType = ActionAll \<or> actionType = ActionAudio)
                  \<and> snd (determineTargetVideoLanguage track info (VideoLanguage cfg))
               then True else needsFix0);
            needsFix2 =
              (if Type track = ''audio''
                  \<and> (actionType = ActionAll \<or> actionType = ActionAudio)
               then
                 (if \<not> isInList (Language (Properties track)) (AudioLanguages cfg) then True
                  else if DefaultTrack (Properties track)
                          \<noteq> (Language (Properties track) = DefaultAudio cfg)
                       then True else needsFix1)
               else needsFix1);
            needsFix3 =
              (if Type track = ''subtitles''
                  \<and> (actionType = ActionAll \<or> actionType = ActionSubtitle)
                  \<and> \<not> isInList (Language (Properties track)) (SubtitleLanguages cfg)
               then True else needsFix2)
        in (hasVideo, needsFix3))"

fun checkTracks ::
  "ActionType \<Rightarrow> Config \<Rightarrow> MkvInfo \<Rightarrow> Track list \<Rightarrow> bool \<times> bool \<Rightarrow> bool \<times> bool" where
  "checkTracks actionType cfg info [] st = st"
| "checkTracks actionType cfg info (track # ts) st =
     checkTracks actionType cfg info ts (checkTrack actionType cfg info track st)"

text \<open>The test \<^verbatim>\<open>hasVideo && !needsFix\<close> after the first loop.\<close>

definition alreadyCompliant :: "ActionType \<Rightarrow> Config \<Rightarrow> MkvInfo \<Rightarrow> bool" where
  "alreadyCompliant actionType cfg info =
     (case checkTracks actionType cfg info (Tracks info) (False, False) of
        (hasVideo, needsFix) \<Rightarrow> hasVideo \<and> \<not> needsFix)"

text \<open>
  The command for the external tool. The source appends option strings to \<^verbatim>\<open>args\<close>;
  the model builds the same options as a list of instructions and prints each one with
  \<open>renderInstr\<close>, so that the printed command is \<open>remuxArgs\<close> and the instructions are
  available unprinted. Track ids are kept as integers until they are printed.
\<close>

datatype Instr =
    AudioTracks "int list"
  | NoAudio
  | SubtitleTracks "int list"
  | NoSubtitles
  | SetLanguage int string
  | SetDefaultTrack int bool

text \<open>The second loop: the two keep-lists \<^verbatim>\<open>(keepAudioIds, keepSubtitleIds)\<close>.\<close>

fun keepIds ::
  "ActionType \<Rightarrow> Config \<Rightarrow> Track list \<Rightarrow> int list \<times> int list \<Rightarrow> int list \<times> int list" where
  "keepIds actionType cfg [] st = st"
| "keepIds actionType cfg (track # ts) (keepAudioIds, keepSubtitleIds) =
     keepIds actionType cfg ts
       (if Type track = ''audio''
           \<and> (actionType = ActionAll \<or> actionType = ActionAudio)
           \<and> isInList (Language (Properties track)) (AudioLanguages cfg)
        then keepAudioIds @ [ID track] else keepAudioIds,
        if Type track = ''subtitles''
           \<and> (actionType = ActionAll \<or> actionType = ActionSubtitle)
           \<and> isInList (Language (Properties track)) (SubtitleLanguages cfg)
        then keepSubtitleIds @ [ID track] else keepSubtitleIds)"

definition audioSelection :: "ActionType \<Rightarrow> int list \<Rightarrow> Instr list" where
  "audioSelection actionType keepAudioIds =
     (if actionType = ActionAll \<or> actionType = ActionAudio then
        (if length keepAudioIds > 0 then [AudioTracks keepAudioIds] else [NoAudio])
      else [])"

definition subtitleSelection :: "ActionType \<Rightarrow> int list \<Rightarrow> Instr list" where
  "subtitleSelection actionType keepSubtitleIds =
     (if actionType = ActionAll \<or> actionType = ActionSubtitle then
        (if length keepSubtitleIds > 0 then [SubtitleTracks keepSubtitleIds] else [NoSubtitles])
      else [])"

text \<open>The body of the third loop: the options one track contributes.\<close>

definition trackInstrs :: "ActionType \<Rightarrow> Config \<Rightarrow> MkvInfo \<Rightarrow> Track \<Rightarrow> Instr list" where
  "trackInstrs actionType cfg info track =
     (if Type track = ''video'' \<and> (actionType = ActionAll \<or> actionType = ActionAudio)
      then [SetLanguage (ID track)
              (fst (determineTargetVideoLanguage track info (VideoLanguage cfg)))]
      else [])
     @
     (if Type track = ''audio'' \<and> (actionType = ActionAll \<or> actionType = ActionAudio)
         \<and> isInList (Language (Properties track)) (AudioLanguages cfg)
      then (if Language (Properties track) = DefaultAudio cfg
            then [SetDefaultTrack (ID track) True]
            else [SetDefaultTrack (ID track) False])
      else [])"

definition remuxPlan :: "ActionType \<Rightarrow> Config \<Rightarrow> MkvInfo \<Rightarrow> Instr list" where
  "remuxPlan actionType cfg info =
     (case keepIds actionType cfg (Tracks info) ([], []) of
        (keepAudioIds, keepSubtitleIds) \<Rightarrow>
          audioSelection actionType keepAudioIds
          @ subtitleSelection actionType keepSubtitleIds
          @ concat (map (trackInstrs actionType cfg info) (Tracks info)))"

subsection \<open>Printing the command\<close>

text \<open>
  \<^verbatim>\<open>fmt.Sprintf("%d", n)\<close>: decimal digits, most significant first, with a minus sign
  for a negative number. A digit is looked up in the digit string, and only for a value
  below ten.
\<close>

definition digitChar :: "nat \<Rightarrow> char" where
  "digitChar d = ''0123456789'' ! d"

fun showNat :: "nat \<Rightarrow> string" where
  "showNat n = (if n < 10 then [digitChar n] else showNat (n div 10) @ [digitChar (n mod 10)])"

declare showNat.simps [simp del]

definition showInt :: "int \<Rightarrow> string" where
  "showInt i = (if i < 0 then CHR ''-'' # showNat (nat (- i)) else showNat (nat i))"

text \<open>\<^verbatim>\<open>strings.Join(elems, sep)\<close>.\<close>

fun joinStrings :: "string list \<Rightarrow> string \<Rightarrow> string" where
  "joinStrings [] sep = ''''"
| "joinStrings [x] sep = x"
| "joinStrings (x # y # ys) sep = x @ sep @ joinStrings (y # ys) sep"

fun renderInstr :: "Instr \<Rightarrow> string list" where
  "renderInstr (AudioTracks ids) = [''--audio-tracks'', joinStrings (map showInt ids) '','']"
| "renderInstr NoAudio = [''--no-audio'']"
| "renderInstr (SubtitleTracks ids) =
     [''--subtitle-tracks'', joinStrings (map showInt ids) '','']"
| "renderInstr NoSubtitles = [''--no-subtitles'']"
| "renderInstr (SetLanguage i lang) = [''--language'', showInt i @ '':'' @ lang]"
| "renderInstr (SetDefaultTrack i yes) =
     [''--default-track'', showInt i @ (if yes then '':yes'' else '':no'')]"

definition remuxOptions :: "ActionType \<Rightarrow> Config \<Rightarrow> MkvInfo \<Rightarrow> string list" where
  "remuxOptions actionType cfg info = concat (map renderInstr (remuxPlan actionType cfg info))"

text \<open>
  The output file name: \<^verbatim>\<open>filepath.Ext\<close> is the suffix of the last path element from its
  last dot (empty when it has none), \<^verbatim>\<open>strings.TrimSuffix\<close> removes it, and \<^verbatim>\<open>-remux\<close>
  goes in between.
\<close>

definition filepathExt :: "string \<Rightarrow> string" where
  "filepathExt p =
     (let r = takeWhile (\<lambda>c. c \<noteq> CHR ''/'') (rev p) in
      if CHR ''.'' \<in> set r then CHR ''.'' # rev (takeWhile (\<lambda>c. c \<noteq> CHR ''.'') r)
      else '''')"

definition outputFileName :: "string \<Rightarrow> string" where
  "outputFileName inputFile =
     (let ext = filepathExt inputFile;
          baseName = take (length inputFile - length ext) inputFile
      in baseName @ ''-remux'' @ ext)"

definition remuxArgs :: "ActionType \<Rightarrow> Config \<Rightarrow> MkvInfo \<Rightarrow> string \<Rightarrow> string list" where
  "remuxArgs actionType cfg info inputFile =
     [''-o'', outputFileName inputFile] @ remuxOptions actionType cfg info @ [inputFile]"

section \<open>Running remuxFile: the external tool and the file system as an environment\<close>

text \<open>
  What \<^verbatim>\<open>remuxFile\<close>, the cache and the worker ask of the outside world is a record of
  answers: the output of \<^verbatim>\<open>mkvmerge -J\<close> (or its failure), the result of
  \<^verbatim>\<open>json.Unmarshal\<close> into \<^verbatim>\<open>MkvInfo\<close>, whether the remux command and \<^verbatim>\<open>os.Remove\<close>
  succeed, the result of \<^verbatim>\<open>filepath.Abs\<close> and the modification time that \<^verbatim>\<open>os.Stat\<close>
  reports (\<^verbatim>\<open>ModTime().Unix()\<close>, an \<^verbatim>\<open>int64\<close> that is only compared). Every error return
  of the source is a value of \<open>error\<close>.
\<close>

datatype error =
    InspectionFailed
  | JsonParsingFailed
  | RemuxCommandFailed
  | DeleteOriginalFailed
  | AbsFailed
  | StatFailed
  | MarshalFailed
  | WriteFailed

record Env =
  mkvmergeInspect :: "string \<Rightarrow> string option"
  jsonUnmarshal :: "string \<Rightarrow> MkvInfo option"
  mkvmergeRun :: "string list \<Rightarrow> bool"
  osRemove :: "string \<Rightarrow> bool"
  filepathAbs :: "string \<Rightarrow> string option"
  osStatModTime :: "string \<Rightarrow> int option"

text \<open>The external actions a call performs, in order, next to its result.\<close>

datatype Effect =
    RunMkvmerge "string list"
  | RemoveFile string

text \<open>
  \<^verbatim>\<open>remuxFile\<close>: the final path (the empty string for "needs fixing, check-only") or an
  error. The remux command runs only past the two early returns.
\<close>

definition remuxFile ::
  "Env \<Rightarrow> string \<Rightarrow> Config \<Rightarrow> bool \<Rightarrow> ActionType \<Rightarrow> (error + string) \<times> Effect list" where
  "remuxFile env inputFile cfg checkOnly actionType =
     (case mkvmergeInspect env inputFile of
        None \<Rightarrow> (Inl InspectionFailed, [RunMkvmerge [''-J'', inputFile]])
      | Some output \<Rightarrow>
          (case jsonUnmarshal env output of
             None \<Rightarrow> (Inl JsonParsingFailed, [RunMkvmerge [''-J'', inputFile]])
           | Some info \<Rightarrow>
               if alreadyCompliant actionType cfg info
               then (Inr inputFile, [RunMkvmerge [''-J'', inputFile]])
               else if checkOnly
               then (Inr '''', [RunMkvmerge [''-J'', inputFile]])
               else
                 (let outputFile = outputFileName inputFile;
                      args = remuxArgs actionType cfg info inputFile
                  in if \<not> mkvmergeRun env args
                     then (Inl RemuxCommandFailed,
                           [RunMkvmerge [''-J'', inputFile], RunMkvmerge args,
                            RemoveFile outputFile])
                     else if \<not> osRemove env inputFile
                     then (Inl DeleteOriginalFailed,
                           [RunMkvmerge [''-J'', inputFile], RunMkvmerge args,
                            RemoveFile inputFile])
                     else (Inr outputFile,
                           [RunMkvmerge [''-J'', inputFile], RunMkvmerge args,
                            RemoveFile inputFile]))))"

section \<open>The processed-file cache\<close>

text \<open>
  \<^verbatim>\<open>Cache\<close>: the map \<^verbatim>\<open>Items\<close> from key to modification time and the cache file's
  \<^verbatim>\<open>path\<close>. The mutex is not modelled: each operation below is one critical section.
  \<^verbatim>\<open>Check\<close> returns its two results as a pair; \<^verbatim>\<open>Update\<close> returns the cache after the
  call next to its error.
\<close>

record Cache =
  Items :: "string \<Rightarrow> int option"
  path :: string

definition Check :: "Env \<Rightarrow> Cache \<Rightarrow> string \<Rightarrow> string \<Rightarrow> bool \<times> error option" where
  "Check env c cacheKey filePath =
     (case filepathAbs env filePath of
        None \<Rightarrow> (False, Some AbsFailed)
      | Some absPath \<Rightarrow>
          (case osStatModTime env absPath of
             None \<Rightarrow> (False, Some StatFailed)
           | Some modTime \<Rightarrow>
               (case Items c cacheKey of
                  None \<Rightarrow> (False, None)
                | Some cachedTime \<Rightarrow>
                    if modTime = cachedTime then (True, None) else (False, None))))"

definition Update :: "Env \<Rightarrow> Cache \<Rightarrow> string \<Rightarrow> string \<Rightarrow> Cache \<times> error option" where
  "Update env c cacheKey filePath =
     (case filepathAbs env filePath of
        None \<Rightarrow> (c, Some AbsFailed)
      | Some absPath \<Rightarrow>
          (case osStatModTime env absPath of
             None \<Rightarrow> (c, Some StatFailed)
           | Some modTime \<Rightarrow> (c\<lparr>Items := (Items c)(cacheKey \<mapsto> modTime)\<rparr>, None)))"

text \<open>
  \<^verbatim>\<open>Save\<close> marshals the map, hands the bytes to \<^verbatim>\<open>os.WriteFile\<close> on the cache's own
  path and returns its error. \<^verbatim>\<open>json.MarshalIndent\<close> is a parameter. The disk maps a file
  name to its content.

  \<^verbatim>\<open>os.WriteFile\<close> opens the named file with \<^verbatim>\<open>O_WRONLY|O_CREATE|O_TRUNC\<close>, writes the
  bytes, closes the file, and returns the first error of the three steps. What the file
  system does to the call is a \<open>WriteFault\<close>: the open fails and the file stays as it
  was; the write fails after some bytes and the truncated file holds those bytes; the
  close fails after all bytes were written; or nothing fails. \<open>osWriteFile\<close> gives the
  disk after the call and the error it returns.

  \<open>osWriteFileSteps\<close> lists the disks a call without fault passes through (the file is
  empty after the open, then holds a growing prefix of the data), and \<open>SaveSteps\<close> those
  of \<^verbatim>\<open>Save\<close>: an interruption during the write leaves one of them.
\<close>

type_synonym Disk = "string \<Rightarrow> string option"

datatype WriteFault =
    NoFault
  | OpenFails
  | WriteFailsAfter nat
  | CloseFails

definition osWriteFile :: "WriteFault \<Rightarrow> string \<Rightarrow> string \<Rightarrow> Disk \<Rightarrow> Disk \<times> error option" where
  "osWriteFile fault name data disk =
     (case fault of
        OpenFails \<Rightarrow> (disk, Some WriteFailed)
      | WriteFailsAfter n \<Rightarrow> (disk(name \<mapsto> take n data), Some WriteFailed)
      | CloseFails \<Rightarrow> (disk(name \<mapsto> data), Some WriteFailed)
      | NoFault \<Rightarrow> (disk(name \<mapsto> data), None))"

definition osWriteFileSteps :: "string \<Rightarrow> string \<Rightarrow> Disk \<Rightarrow> Disk list" where
  "osWriteFileSteps name data disk =
     map (\<lambda>n. disk(name \<mapsto> take n data)) [0 ..< Suc (length data)]"

definition Save ::
  "((string \<Rightarrow> int option) \<Rightarrow> string option) \<Rightarrow> WriteFault \<Rightarrow> Cache \<Rightarrow> Disk
     \<Rightarrow> Disk \<times> error option" where
  "Save jsonMarshalIndent fault c disk =
     (case jsonMarshalIndent (Items c) of
        None \<Rightarrow> (disk, Some MarshalFailed)
      | Some data \<Rightarrow> osWriteFile fault (path c) data disk)"

definition SaveSteps ::
  "((string \<Rightarrow> int option) \<Rightarrow> string option) \<Rightarrow> Cache \<Rightarrow> Disk \<Rightarrow> Disk list" where
  "SaveSteps jsonMarshalIndent c disk =
     (case jsonMarshalIndent (Items c) of
        None \<Rightarrow> []
      | Some data \<Rightarrow> osWriteFileSteps (path c) data disk)"

section \<open>One job of a worker\<close>

text \<open>
  The body of the worker's loop in \<^verbatim>\<open>runProcessing\<close> for one job, past the cancellation
  check: the cache key, the cache check, \<^verbatim>\<open>remuxFile\<close>, and the cache update for a
  non-empty final path. The error of \<^verbatim>\<open>filepath.Abs\<close> is dropped by the source, which
  then formats the empty path it returns; the error of \<^verbatim>\<open>Check\<close> is dropped as well.
\<close>

definition processJob ::
  "Env \<Rightarrow> Config \<Rightarrow> bool \<Rightarrow> ActionType \<Rightarrow> Cache \<Rightarrow> string \<Rightarrow> Cache \<times> Effect list" where
  "processJob env cfg checkOnly actionType fileCache jobPath =
     (let absPath = (case filepathAbs env jobPath of Some p \<Rightarrow> p | None \<Rightarrow> '''');
          cacheKey = actionType @ '':'' @ absPath
      in if fst (Check env fileCache cacheKey jobPath) then (fileCache, [])
         else
           (case remuxFile env jobPath cfg checkOnly actionType of
              (Inl err, effects) \<Rightarrow> (fileCache, effects)
            | (Inr finalPath, effects) \<Rightarrow>
                if finalPath \<noteq> ''''
                then (fst (Update env fileCache cacheKey finalPath), effects)
                else (fileCache, effects)))"

section \<open>The effect of a plan on a track list\<close>

text \<open>
  Modelled from the spec: the external remux tool is not part of the repository. Its
  effect on the declared tracks is what the spec's words for applying a plan say:
  a keep-list keeps the tracks of its kind whose id it lists and a drop-all instruction
  removes the kind, a language override sets the language of the track with that id,
  and a default-flag instruction sets the default flag of the track with that id.
\<close>

fun setField :: "Instr \<Rightarrow> Track \<Rightarrow> Track" where
  "setField (SetLanguage i lang) t =
     (if ID t = i then t\<lparr>Properties := (Properties t)\<lparr>Language := lang\<rparr>\<rparr> else t)"
| "setField (SetDefaultTrack i yes) t =
     (if ID t = i then t\<lparr>Properties := (Properties t)\<lparr>DefaultTrack := yes\<rparr>\<rparr> else t)"
| "setField instr t = t"

fun applyInstr :: "Instr \<Rightarrow> Track list \<Rightarrow> Track list" where
  "applyInstr (AudioTracks ids) ts =
     filter (\<lambda>t. Type t = ''audio'' \<longrightarrow> ID t \<in> set ids) ts"
| "applyInstr NoAudio ts = filter (\<lambda>t. Type t \<noteq> ''audio'') ts"
| "applyInstr (SubtitleTracks ids) ts =
     filter (\<lambda>t. Type t = ''subtitles'' \<longrightarrow> ID t \<in> set ids) ts"
| "applyInstr NoSubtitles ts = filter (\<lambda>t. Type t \<noteq> ''subtitles'') ts"
| "applyInstr (SetLanguage i lang) ts = map (setField (SetLanguage i lang)) ts"
| "applyInstr (SetDefaultTrack i yes) ts = map (setField (SetDefaultTrack i yes)) ts"

definition applyPlan :: "Instr list \<Rightarrow> MkvInfo \<Rightarrow> MkvInfo" where
  "applyPlan plan info = \<lparr>Tracks = fold applyInstr plan (Tracks info)\<rparr>"

section \<open>Vocabulary of the statements\<close>

text \<open>
  A scope includes the audio checks (and with them the video-language check) when it is
  \<^verbatim>\<open>ActionAll\<close> or \<^verbatim>\<open>ActionAudio\<close>, and the subtitle checks when it is \<^verbatim>\<open>ActionAll\<close> or
  \<^verbatim>\<open>ActionSubtitle\<close>: the two tests the source writes out at every use.
\<close>

definition includesAudio :: "ActionType \<Rightarrow> bool" where
  "includesAudio actionType = (actionType = ActionAll \<or> actionType = ActionAudio)"

definition includesSubtitles :: "ActionType \<Rightarrow> bool" where
  "includesSubtitles actionType = (actionType = ActionAll \<or> actionType = ActionSubtitle)"

text \<open>
  A track causes the file to be judged non-compliant when its iteration of the first
  loop, started with \<^verbatim>\<open>needsFix\<close> false, leaves it true.
\<close>

definition flagsTrack :: "ActionType \<Rightarrow> Config \<Rightarrow> MkvInfo \<Rightarrow> Track \<Rightarrow> bool" where
  "flagsTrack actionType cfg info track =
     snd (checkTrack actionType cfg info track (False, False))"

text \<open>The keep-lists that the second loop of \<^verbatim>\<open>remuxFile\<close> leaves.\<close>

definition keepAudioIds :: "ActionType \<Rightarrow> Config \<Rightarrow> MkvInfo \<Rightarrow> int list" where
  "keepAudioIds actionType cfg info = fst (keepIds actionType cfg (Tracks info) ([], []))"

definition keepSubtitleIds :: "ActionType \<Rightarrow> Config \<Rightarrow> MkvInfo \<Rightarrow> int list" where
  "keepSubtitleIds actionType cfg info = snd (keepIds actionType cfg (Tracks info) ([], []))"

text \<open>The audio and subtitle tracks whose language is in the policy's allow-list.\<close>

definition allowedAudioTracks :: "Config \<Rightarrow> Track list \<Rightarrow> Track list" where
  "allowedAudioTracks cfg ts =
     filter (\<lambda>t. Type t = ''audio'' \<and> trackLanguage t \<in> set (AudioLanguages cfg)) ts"

definition allowedSubtitleTracks :: "Config \<Rightarrow> Track list \<Rightarrow> Track list" where
  "allowedSubtitleTracks cfg ts =
     filter (\<lambda>t. Type t = ''subtitles'' \<and> trackLanguage t \<in> set (SubtitleLanguages cfg)) ts"

text \<open>A list of strings contains an option followed by its value.\<close>

fun containsOption :: "string list \<Rightarrow> string \<Rightarrow> string \<Rightarrow> bool" where
  "containsOption (a # b # rest) opt val =
     ((a = opt \<and> b = val) \<or> containsOption (b # rest) opt val)"
| "containsOption [a] opt val = False"
| "containsOption [] opt val = False"

text \<open>The video tracks of a file.\<close>

definition videoTracks :: "Track list \<Rightarrow> Track list" where
  "videoTracks ts = filter (\<lambda>t. Type t = ''video'') ts"

text \<open>The cache key the worker builds for a job: the scope, a colon, the absolute path.\<close>

definition jobCacheKey :: "Env \<Rightarrow> ActionType \<Rightarrow> string \<Rightarrow> string" where
  "jobCacheKey env actionType jobPath =
     actionType @ '':'' @ (case filepathAbs env jobPath of Some p \<Rightarrow> p | None \<Rightarrow> '''')"

text \<open>The content of one file in each of a list of disks.\<close>

definition contentsAt :: "string \<Rightarrow> Disk list \<Rightarrow> string option list" where
  "contentsAt name disks = map (\<lambda>disk. disk name) disks"

text \<open>
  What the plan's instructions for a track make of it: a video track under a scope that
  includes audio gets the resolved language, an allowed audio track gets its default
  flag, any other track stays as it is.
\<close>

definition remuxedTrack :: "ActionType \<Rightarrow> Config \<Rightarrow> MkvInfo \<Rightarrow> Track \<Rightarrow> Track" where
  "remuxedTrack actionType cfg info t = fold setField (trackInstrs actionType cfg info t) t"

text \<open>Whether the plan's keep-lists keep a track.\<close>

definition keptTrack :: "ActionType \<Rightarrow> Config \<Rightarrow> Track \<Rightarrow> bool" where
  "keptTrack actionType cfg t =
     ((Type t = ''audio'' \<and> includesAudio actionType
         \<longrightarrow> trackLanguage t \<in> set (AudioLanguages cfg)) \<and>
      (Type t = ''subtitles'' \<and> includesSubtitles actionType
         \<longrightarrow> trackLanguage t \<in> set (SubtitleLanguages cfg)))"

text \<open>The languages of the audio tracks that the plan keeps, in declaration order.\<close>

definition keptAudioLanguages :: "ActionType \<Rightarrow> Config \<Rightarrow> MkvInfo \<Rightarrow> string list" where
  "keptAudioLanguages actionType cfg info =
     audioLanguages (filter (keptTrack actionType cfg) (Tracks info))"

section \<open>Concrete inspections and policies\<close>

text \<open>The inputs of the spec's examples and of the counterexamples below.\<close>

definition videoUnd :: Track where
  "videoUnd = mkTrack 0 ''video'' ''und'' True"

definition infoUndJpnEng :: MkvInfo where
  "infoUndJpnEng =
     \<lparr>Tracks = [videoUnd, mkTrack 1 ''audio'' ''jpn'' True, mkTrack 2 ''audio'' ''eng'' False]\<rparr>"

definition infoUndJpn :: MkvInfo where
  "infoUndJpn = \<lparr>Tracks = [videoUnd, mkTrack 1 ''audio'' ''jpn'' True]\<rparr>"

definition infoUndOnly :: MkvInfo where
  "infoUndOnly = \<lparr>Tracks = [videoUnd]\<rparr>"

definition infoUndUnd :: MkvInfo where
  "infoUndUnd = \<lparr>Tracks = [videoUnd, mkTrack 1 ''audio'' ''und'' False]\<rparr>"


definition cfgEng :: Config where
  "cfgEng = \<lparr>VideoLanguage = ''eng'', AudioLanguages = [''eng'', ''jpn''],
     DefaultAudio = ''eng'', SubtitleLanguages = [''eng'']\<rparr>"


text \<open>
  An environment in which every path is absolute, the inspection output of a file is
  represented by its path, the tools succeed, and the inspection and the modification
  times are the given tables.
\<close>

definition mkEnv :: "(string \<Rightarrow> MkvInfo option) \<Rightarrow> (string \<Rightarrow> int option) \<Rightarrow> Env" where
  "mkEnv inspect stat =
     \<lparr>mkvmergeInspect = (\<lambda>p. Some p), jsonUnmarshal = inspect, mkvmergeRun = (\<lambda>args. True),
      osRemove = (\<lambda>p. True), filepathAbs = (\<lambda>p. Some p), osStatModTime = stat\<rparr>"

definition statTable :: "(string \<times> int) list \<Rightarrow> string \<Rightarrow> int option" where
  "statTable table = map_of table"

definition inspectTable :: "(string \<times> MkvInfo) list \<Rightarrow> string \<Rightarrow> MkvInfo option" where
  "inspectTable table = map_of table"

definition emptyCache :: Cache where
  "emptyCache = \<lparr>Items = (\<lambda>k. None), path = ''.mkvfixer.cache''\<rparr>"

definition envOneFile :: Env where
  "envOneFile = mkEnv (inspectTable []) (statTable [(''/m/a.mkv'', 1700000000)])"

definition envTouched :: Env where
  "envTouched = mkEnv (inspectTable []) (statTable [(''/m/a.mkv'', 1700000060)])"

definition envNoFile :: Env where
  "envNoFile = mkEnv (inspectTable []) (statTable [])"

definition infoEndToEnd :: MkvInfo where
  "infoEndToEnd =
     \<lparr>Tracks = [videoUnd, mkTrack 1 ''audio'' ''eng'' False, mkTrack 2 ''audio'' ''jpn'' False,
        mkTrack 3 ''subtitles'' ''fre'' False]\<rparr>"

definition videoEng :: Track where
  "videoEng = mkTrack 0 ''video'' ''eng'' True"

definition infoEngFre :: MkvInfo where
  "infoEngFre = \<lparr>Tracks = [videoEng, mkTrack 1 ''audio'' ''fre'' True]\<rparr>"

definition envEndToEnd :: Env where
  "envEndToEnd =
     mkEnv (inspectTable [(''/m/a.mkv'', infoEndToEnd)]) (statTable [(''/m/a.mkv'', 1700000000)])"

definition envEngFre :: Env where
  "envEngFre =
     mkEnv (inspectTable [(''/m/a.mkv'', infoEngFre)]) (statTable [(''/m/a.mkv'', 1700000000)])"

definition infoNoVideo :: MkvInfo where
  "infoNoVideo = \<lparr>Tracks = [mkTrack 1 ''audio'' ''eng'' True]\<rparr>"

definition envNoVideo :: Env where
  "envNoVideo =
     mkEnv (inspectTable [(''/m/a.mkv'', infoNoVideo)])
       (statTable [(''/m/a.mkv'', 1700000000), (''/m/a-remux.mkv'', 1700000100)])"

text \<open>
  \<^verbatim>\<open>json.MarshalIndent\<close> on the empty map prints \<open>{}\<close>; the stand-in below is used with
  the empty cache only. The disk holds the cache file of an earlier save.
\<close>

definition marshalEmpty :: "(string \<Rightarrow> int option) \<Rightarrow> string option" where
  "marshalEmpty items = Some ''{}''"

definition diskSaved :: Disk where
  "diskSaved = (\<lambda>name. None)(''.mkvfixer.cache'' \<mapsto> ''{}'')"

definition cfgJpn :: Config where
  "cfgJpn = \<lparr>VideoLanguage = ''eng'', AudioLanguages = [''jpn''], DefaultAudio = ''jpn'',
     SubtitleLanguages = [''eng'']\<rparr>"


definition cfgEngOnly :: Config where
  "cfgEngOnly = \<lparr>VideoLanguage = ''eng'', AudioLanguages = [''eng''], DefaultAudio = ''eng'',
     SubtitleLanguages = [''eng'']\<rparr>"

section \<open>Properties of the language-inference rule\<close>

lemma mkTrack_sel [simp]:
  "ID (mkTrack i ty lang dflt) = i"
  "Type (mkTrack i ty lang dflt) = ty"
  "Language (Properties (mkTrack i ty lang dflt)) = lang"
  "DefaultTrack (Properties (mkTrack i ty lang dflt)) = dflt"
  "trackLanguage (mkTrack i ty lang dflt) = lang"
  by (simp_all add: mkTrack_def trackLanguage_def)

lemma audioLanguages_simps [simp]:
  "audioLanguages [] = []"
  "audioLanguages (t # ts) =
     (if Type t = ''audio'' then trackLanguage t # audioLanguages ts else audioLanguages ts)"
  by (simp_all add: audioLanguages_def audioTracks_def)

text \<open>What the scan leaves in its two variables.\<close>

lemma audioScan_fst:
  "fst (audioScan ts p (h, f)) = (h \<or> p \<in> set (audioLanguages ts))"
  by (induction ts arbitrary: h f) (auto simp: trackLanguage_def)

lemma audioScan_snd_set:
  "f \<noteq> '''' \<Longrightarrow> snd (audioScan ts p (h, f)) = f"
  by (induction ts arbitrary: h f) auto

lemma audioScan_snd:
  "snd (audioScan ts p (h, '''')) =
     (case filter (\<lambda>l. l \<noteq> '''') (audioLanguages ts) of [] \<Rightarrow> '''' | l # _ \<Rightarrow> l)"
proof (induction ts arbitrary: h)
  case Nil
  show ?case by simp
next
  case (Cons t ts)
  show ?case
  proof (cases "Type t = ''audio''")
    case False
    with Cons show ?thesis by simp
  next
    case audio: True
    show ?thesis
    proof (cases "Language (Properties t) = ''''")
      case True
      with audio Cons show ?thesis by (simp add: trackLanguage_def)
    next
      case False
      with audio show ?thesis by (simp add: trackLanguage_def audioScan_snd_set)
    qed
  qed
qed

text \<open>The rule for a sentinel language that is not the target, read off the scan.\<close>

lemma determine_sentinel:
  assumes "trackLanguage v = ''und'' \<or> trackLanguage v = ''unk''"
      and "trackLanguage v \<noteq> p"
  shows "determineTargetVideoLanguage v info p =
     (if p \<in> set (audioLanguages (Tracks info)) then (p, True)
      else case filter (\<lambda>l. l \<noteq> '''') (audioLanguages (Tracks info)) of
             [] \<Rightarrow> (''und'', False)
           | l # _ \<Rightarrow> (l, True))"
proof -
  obtain h f where scan: "audioScan (Tracks info) p (False, '''') = (h, f)"
    by (cases "audioScan (Tracks info) p (False, '''')") auto
  have h: "h = (p \<in> set (audioLanguages (Tracks info)))"
    using audioScan_fst [of "Tracks info" p False "''''"] scan by simp
  have f: "f = (case filter (\<lambda>l. l \<noteq> '''') (audioLanguages (Tracks info)) of
                  [] \<Rightarrow> '''' | l # _ \<Rightarrow> l)"
    using audioScan_snd [of "Tracks info" p False] scan by simp
  have cur: "Language (Properties v) \<noteq> p"
    "Language (Properties v) = ''und'' \<or> Language (Properties v) = ''unk''"
    using assms by (auto simp: trackLanguage_def)
  have det: "determineTargetVideoLanguage v info p =
      (if h then (p, True) else if f \<noteq> '''' then (f, True) else (''und'', False))"
    using cur scan by (auto simp: determineTargetVideoLanguage_def Let_def)
  show ?thesis
  proof (cases "filter (\<lambda>l. l \<noteq> '''') (audioLanguages (Tracks info))")
    case Nil
    then show ?thesis by (simp add: det h f)
  next
    case (Cons l ls)
    from filter_eq_ConsD [OF Cons] have "l \<noteq> ''''" by blast
    with Cons show ?thesis by (simp add: det h f)
  qed
qed

lemma determine_target:
  "trackLanguage v = p \<Longrightarrow> determineTargetVideoLanguage v info p = (p, False)"
  by (simp add: determineTargetVideoLanguage_def trackLanguage_def)

lemma determine_specific:
  "trackLanguage v \<noteq> p \<Longrightarrow> trackLanguage v \<noteq> ''und'' \<Longrightarrow> trackLanguage v \<noteq> ''unk'' \<Longrightarrow>
     determineTargetVideoLanguage v info p = (p, True)"
  by (simp add: determineTargetVideoLanguage_def trackLanguage_def)

lemma example_languages:
  "audioLanguages (Tracks infoUndJpnEng) = [''jpn'', ''eng'']"
  "audioLanguages (Tracks infoUndJpn) = [''jpn'']"
  "audioLanguages (Tracks infoUndOnly) = []"
  "trackLanguage videoUnd = ''und''"
  by (simp_all add: infoUndJpnEng_def infoUndJpn_def infoUndOnly_def videoUnd_def)

section \<open>Properties of the evaluation loop\<close>

lemma isInList_iff: "isInList lang list = (lang \<in> set list)"
  by (induction list) auto

lemma flagsTrack_video:
  "Type t = ''video'' \<Longrightarrow>
     flagsTrack a cfg info t =
       (includesAudio a \<and> snd (determineTargetVideoLanguage t info (VideoLanguage cfg)))"
  by (simp add: flagsTrack_def checkTrack_def includesAudio_def)

lemma flagsTrack_audio:
  "Type t = ''audio'' \<Longrightarrow>
     flagsTrack a cfg info t =
       (includesAudio a \<and>
         (trackLanguage t \<notin> set (AudioLanguages cfg) \<or>
          DefaultTrack (Properties t) \<noteq> (trackLanguage t = DefaultAudio cfg)))"
  by (auto simp: flagsTrack_def checkTrack_def includesAudio_def isInList_iff trackLanguage_def)

lemma flagsTrack_subtitles:
  "Type t = ''subtitles'' \<Longrightarrow>
     flagsTrack a cfg info t =
       (includesSubtitles a \<and> trackLanguage t \<notin> set (SubtitleLanguages cfg))"
  by (auto simp: flagsTrack_def checkTrack_def includesSubtitles_def isInList_iff
      trackLanguage_def)

lemma flagsTrack_other:
  "Type t \<noteq> ''video'' \<Longrightarrow> Type t \<noteq> ''audio'' \<Longrightarrow> Type t \<noteq> ''subtitles'' \<Longrightarrow>
     \<not> flagsTrack a cfg info t"
  by (simp add: flagsTrack_def checkTrack_def)

lemma checkTrack_eq:
  "checkTrack a cfg info t (hv, nf) = (hv \<or> Type t = ''video'', nf \<or> flagsTrack a cfg info t)"
  by (auto simp: flagsTrack_def checkTrack_def Let_def)

lemma checkTracks_eq:
  "checkTracks a cfg info ts (hv, nf) =
     (hv \<or> (\<exists>t\<in>set ts. Type t = ''video''), nf \<or> (\<exists>t\<in>set ts. flagsTrack a cfg info t))"
  by (induction ts arbitrary: hv nf) (auto simp: checkTrack_eq)

lemma alreadyCompliant_iff:
  "alreadyCompliant a cfg info =
     ((\<exists>t\<in>set (Tracks info). Type t = ''video'') \<and>
      (\<forall>t\<in>set (Tracks info). \<not> flagsTrack a cfg info t))"
  by (simp add: alreadyCompliant_def checkTracks_eq)

lemma determine_cases:
  "determineTargetVideoLanguage v info p =
     (if trackLanguage v = p then (p, False)
      else if trackLanguage v \<noteq> ''und'' \<and> trackLanguage v \<noteq> ''unk'' then (p, True)
      else if p \<in> set (audioLanguages (Tracks info)) then (p, True)
      else case filter (\<lambda>l. l \<noteq> '''') (audioLanguages (Tracks info)) of
             [] \<Rightarrow> (''und'', False)
           | l # _ \<Rightarrow> (l, True))"
proof (cases "trackLanguage v = p")
  case True
  then show ?thesis by (simp add: determine_target)
next
  case differs: False
  show ?thesis
  proof (cases "trackLanguage v \<noteq> ''und'' \<and> trackLanguage v \<noteq> ''unk''")
    case True
    with differs show ?thesis by (simp add: determine_specific)
  next
    case False
    then have sentinel: "trackLanguage v = ''und'' \<or> trackLanguage v = ''unk''" by blast
    then have "\<not> (trackLanguage v \<noteq> ''und'' \<and> trackLanguage v \<noteq> ''unk'')" by blast
    with determine_sentinel [OF sentinel differs, of info] differs show ?thesis
      by (simp only: if_False)
  qed
qed


section \<open>Properties of the cache\<close>

lemma Check_true_iff:
  "fst (Check env c cacheKey filePath) =
     (\<exists>absPath modTime. filepathAbs env filePath = Some absPath \<and>
        osStatModTime env absPath = Some modTime \<and> Items c cacheKey = Some modTime)"
  by (auto simp: Check_def split: option.splits)

lemma Update_ok:
  "filepathAbs env filePath = Some absPath \<Longrightarrow> osStatModTime env absPath = Some modTime \<Longrightarrow>
     Update env c cacheKey filePath = (c\<lparr>Items := (Items c)(cacheKey \<mapsto> modTime)\<rparr>, None)"
  by (simp add: Update_def)

lemma mkEnv_sel [simp]:
  "mkvmergeInspect (mkEnv inspect stat) p = Some p"
  "jsonUnmarshal (mkEnv inspect stat) = inspect"
  "mkvmergeRun (mkEnv inspect stat) args = True"
  "osRemove (mkEnv inspect stat) p = True"
  "filepathAbs (mkEnv inspect stat) p = Some p"
  "osStatModTime (mkEnv inspect stat) = stat"
  by (simp_all add: mkEnv_def)

lemma example_stats:
  "filepathAbs envOneFile ''/m/a.mkv'' = Some ''/m/a.mkv''"
  "osStatModTime envOneFile ''/m/a.mkv'' = Some 1700000000"
  "filepathAbs envTouched ''/m/a.mkv'' = Some ''/m/a.mkv''"
  "osStatModTime envTouched ''/m/a.mkv'' = Some 1700000060"
  "filepathAbs envNoFile ''/m/a.mkv'' = Some ''/m/a.mkv''"
  "osStatModTime envNoFile ''/m/a.mkv'' = None"
  by (simp_all add: envOneFile_def envTouched_def envNoFile_def statTable_def)

lemma osWriteFile_NoFault:
  "osWriteFile NoFault name data disk = (disk(name \<mapsto> data), None)"
  by (simp add: osWriteFile_def)

lemma osWriteFile_error_iff:
  "snd (osWriteFile fault name data disk) = None \<longleftrightarrow> fault = NoFault"
  by (cases fault) (simp_all add: osWriteFile_def)

lemma osWriteFile_others:
  "other \<noteq> name \<Longrightarrow> fst (osWriteFile fault name data disk) other = disk other"
  by (cases fault) (simp_all add: osWriteFile_def)

lemma osWriteFile_content:
  "fst (osWriteFile fault name data disk) name = disk name \<or>
   (\<exists>n\<le>length data. fst (osWriteFile fault name data disk) name = Some (take n data))"
proof (cases fault)
  case NoFault
  then have "fst (osWriteFile fault name data disk) name = Some (take (length data) data)"
    by (simp add: osWriteFile_def)
  then show ?thesis by blast
next
  case OpenFails
  then show ?thesis by (simp add: osWriteFile_def)
next
  case (WriteFailsAfter k)
  then have "fst (osWriteFile fault name data disk) name = Some (take (min k (length data)) data)"
    by (simp add: osWriteFile_def min_def)
  moreover have "min k (length data) \<le> length data" by simp
  ultimately show ?thesis by blast
next
  case CloseFails
  then have "fst (osWriteFile fault name data disk) name = Some (take (length data) data)"
    by (simp add: osWriteFile_def)
  then show ?thesis by blast
qed

lemma osWriteFileSteps_last:
  "last (osWriteFileSteps name data disk) = disk(name \<mapsto> data)"
  by (simp add: osWriteFileSteps_def last_map del: upt_Suc)

lemma osWriteFileSteps_hd:
  "hd (osWriteFileSteps name data disk) = disk(name \<mapsto> '''')"
  by (simp add: osWriteFileSteps_def upt_rec [of 0] del: upt_Suc)

lemma osWriteFileSteps_elem:
  "d \<in> set (osWriteFileSteps name data disk) \<Longrightarrow>
     (\<exists>n\<le>length data. d name = Some (take n data)) \<and> (\<forall>other. other \<noteq> name \<longrightarrow> d other = disk other)"
proof -
  assume "d \<in> set (osWriteFileSteps name data disk)"
  then obtain n where "n < Suc (length data)" and n2: "d = disk(name \<mapsto> take n data)"
    by (auto simp: osWriteFileSteps_def simp del: upt_Suc)
  then have n: "n \<le> length data" "d = disk(name \<mapsto> take n data)"
    by simp_all
  from n(2) have "d name = Some (take n data)" "\<forall>other. other \<noteq> name \<longrightarrow> d other = disk other"
    by simp_all
  with n(1) show ?thesis by blast
qed

section \<open>Properties of the plan and of the printed command\<close>

lemma keepIds_eq:
  "keepIds a cfg ts (ka, ks) =
     (ka @ (if includesAudio a then map ID (allowedAudioTracks cfg ts) else []),
      ks @ (if includesSubtitles a then map ID (allowedSubtitleTracks cfg ts) else []))"
  by (induction ts arbitrary: ka ks)
     (auto simp: includesAudio_def includesSubtitles_def allowedAudioTracks_def
        allowedSubtitleTracks_def isInList_iff trackLanguage_def)

lemma keepAudioIds_eq:
  "keepAudioIds a cfg info =
     (if includesAudio a then map ID (allowedAudioTracks cfg (Tracks info)) else [])"
  by (simp add: keepAudioIds_def keepIds_eq)

lemma keepSubtitleIds_eq:
  "keepSubtitleIds a cfg info =
     (if includesSubtitles a then map ID (allowedSubtitleTracks cfg (Tracks info)) else [])"
  by (simp add: keepSubtitleIds_def keepIds_eq)

lemma remuxPlan_eq:
  "remuxPlan a cfg info =
     audioSelection a (keepAudioIds a cfg info)
     @ subtitleSelection a (keepSubtitleIds a cfg info)
     @ concat (map (trackInstrs a cfg info) (Tracks info))"
  by (simp add: remuxPlan_def keepAudioIds_def keepSubtitleIds_def split: prod.splits)

lemma remuxOptions_eq:
  "remuxOptions a cfg info =
     concat (map renderInstr (audioSelection a (keepAudioIds a cfg info)))
     @ concat (map renderInstr (subtitleSelection a (keepSubtitleIds a cfg info)))
     @ concat (map renderInstr (concat (map (trackInstrs a cfg info) (Tracks info))))"
  by (simp add: remuxOptions_def remuxPlan_eq)

text \<open>The characters of a printed id list: digits, minus signs and commas.\<close>

lemma digitChar_digit: "d < 10 \<Longrightarrow> digitChar d \<in> set ''0123456789''"
proof -
  assume "d < 10"
  then have "d \<in> {0, 1, 2, 3, 4, 5, 6, 7, 8, 9}" by auto
  then show ?thesis by (auto simp: digitChar_def)
qed

lemma showNat_chars: "set (showNat n) \<subseteq> set ''0123456789''"
proof (induction n rule: showNat.induct)
  case (1 n)
  show ?case
  proof (cases "n < 10")
    case True
    then have "showNat n = [digitChar n]" by (subst showNat.simps) simp
    with digitChar_digit [OF True] show ?thesis by simp
  next
    case False
    then have eq: "showNat n = showNat (n div 10) @ [digitChar (n mod 10)]"
      by (subst showNat.simps) simp
    have "digitChar (n mod 10) \<in> set ''0123456789''"
      by (rule digitChar_digit) simp
    with 1 [OF False] show ?thesis unfolding eq by simp
  qed
qed

lemma showInt_chars: "set (showInt i) \<subseteq> set ''-0123456789''"
proof
  fix c
  assume c: "c \<in> set (showInt i)"
  have digits: "set ''0123456789'' \<subseteq> set ''-0123456789''" by (simp add: subset_insertI2)
  show "c \<in> set ''-0123456789''"
  proof (cases "i < 0")
    case True
    with c have "c = CHR ''-'' \<or> c \<in> set (showNat (nat (- i)))"
      by (simp add: showInt_def)
    then show ?thesis
    proof
      assume "c = CHR ''-''"
      then show ?thesis by simp
    next
      assume "c \<in> set (showNat (nat (- i)))"
      with showNat_chars digits show ?thesis by blast
    qed
  next
    case False
    with c have "c \<in> set (showNat (nat i))" by (simp add: showInt_def)
    with showNat_chars digits show ?thesis by blast
  qed
qed

lemma joinStrings_chars:
  "set (joinStrings xs sep) \<subseteq> (\<Union>x\<in>set xs. set x) \<union> set sep"
  by (induction xs sep rule: joinStrings.induct) auto

lemma idList_chars:
  "set (joinStrings (map showInt ids) '','') \<subseteq> set '',-0123456789''"
proof
  fix c
  assume "c \<in> set (joinStrings (map showInt ids) '','')"
  with joinStrings_chars [of "map showInt ids" "'',''"]
  have "c \<in> (\<Union>x\<in>set (map showInt ids). set x) \<or> c = CHR '',''" by auto
  then show "c \<in> set '',-0123456789''"
  proof
    assume "c \<in> (\<Union>x\<in>set (map showInt ids). set x)"
    then obtain i where "c \<in> set (showInt i)" by auto
    with showInt_chars [of i] have "c \<in> set ''-0123456789''" by blast
    then show ?thesis by simp
  next
    assume "c = CHR '',''"
    then show ?thesis by simp
  qed
qed

lemma idList_no_letter:
  assumes "c \<in> set s" and "c \<notin> set '',-0123456789''"
  shows "joinStrings (map showInt ids) '','' \<noteq> s"
  using assms idList_chars [of ids] by blast

lemma idList_not_option:
  "joinStrings (map showInt ids) '','' \<noteq> ''--no-audio''"
  "joinStrings (map showInt ids) '','' \<noteq> ''--audio-tracks''"
  "joinStrings (map showInt ids) '','' \<noteq> ''--no-subtitles''"
  "joinStrings (map showInt ids) '','' \<noteq> ''--subtitle-tracks''"
  "joinStrings (map showInt ids) '','' \<noteq> ''--language''"
  by (rule idList_no_letter [of "CHR ''u''"]; simp)+

text \<open>The strings one track contributes are the two flags and values with a colon.\<close>

lemma trackInstrs_strings:
  "s \<in> set (concat (map renderInstr (trackInstrs a cfg info t))) \<Longrightarrow>
     s = ''--language'' \<or> s = ''--default-track'' \<or> CHR '':'' \<in> set s"
  by (auto simp: trackInstrs_def split: if_splits)

lemma tracks_strings:
  "s \<in> set (concat (map renderInstr (concat (map (trackInstrs a cfg info) ts)))) \<Longrightarrow>
     s = ''--language'' \<or> s = ''--default-track'' \<or> CHR '':'' \<in> set s"
proof -
  assume "s \<in> set (concat (map renderInstr (concat (map (trackInstrs a cfg info) ts))))"
  then obtain t where "s \<in> set (concat (map renderInstr (trackInstrs a cfg info t)))"
    by auto
  then show ?thesis by (rule trackInstrs_strings)
qed

lemma tracks_not_selection:
  "''--no-audio'' \<notin> set (concat (map renderInstr (concat (map (trackInstrs a cfg info) ts))))"
  "''--audio-tracks'' \<notin> set (concat (map renderInstr (concat (map (trackInstrs a cfg info) ts))))"
  "''--no-subtitles'' \<notin> set (concat (map renderInstr (concat (map (trackInstrs a cfg info) ts))))"
  "''--subtitle-tracks'' \<notin> set (concat (map renderInstr (concat (map (trackInstrs a cfg info) ts))))"
  using tracks_strings [of _ a cfg info ts] by fastforce+

lemma containsOption_iff:
  "containsOption args opt val = (\<exists>pre post. args = pre @ [opt, val] @ post)"
proof (induction args opt val rule: containsOption.induct)
  case (1 a b rest opt val)
  show ?case
  proof
    assume "containsOption (a # b # rest) opt val"
    then consider "a = opt \<and> b = val" | "containsOption (b # rest) opt val" by auto
    then show "\<exists>pre post. a # b # rest = pre @ [opt, val] @ post"
    proof cases
      case 1
      then have "a # b # rest = [] @ [opt, val] @ rest" by simp
      then show ?thesis by blast
    next
      case 2
      with "1.IH" obtain pre post where "b # rest = pre @ [opt, val] @ post" by auto
      then have "a # b # rest = (a # pre) @ [opt, val] @ post" by simp
      then show ?thesis by blast
    qed
  next
    assume "\<exists>pre post. a # b # rest = pre @ [opt, val] @ post"
    then obtain pre post where eq: "a # b # rest = pre @ [opt, val] @ post" by auto
    show "containsOption (a # b # rest) opt val"
    proof (cases pre)
      case Nil
      with eq show ?thesis by simp
    next
      case (Cons x pre')
      with eq have "b # rest = pre' @ [opt, val] @ post" by simp
      then have "containsOption (b # rest) opt val" using "1.IH" by blast
      then show ?thesis by simp
    qed
  qed
next
  case (2 a opt val)
  show ?case by (auto simp: Cons_eq_append_conv)
next
  case (3 opt val)
  show ?case by simp
qed

lemma containsOption_appendI1:
  "containsOption xs opt val \<Longrightarrow> containsOption (xs @ ys) opt val"
  unfolding containsOption_iff by (metis append.assoc)

lemma containsOption_appendI2:
  "containsOption ys opt val \<Longrightarrow> containsOption (xs @ ys) opt val"
  unfolding containsOption_iff by (metis append.assoc)

lemma containsOption_hd: "containsOption (opt # val # rest) opt val"
  by simp

lemma remuxFile_noncompliant:
  assumes "mkvmergeInspect env inputFile = Some output"
      and "jsonUnmarshal env output = Some info"
      and "\<not> alreadyCompliant a cfg info"
  shows "snd (remuxFile env inputFile cfg False a) =
           [RunMkvmerge [''-J'', inputFile], RunMkvmerge (remuxArgs a cfg info inputFile),
            RemoveFile (if mkvmergeRun env (remuxArgs a cfg info inputFile)
                        then inputFile else outputFileName inputFile)]"
    and "fst (remuxFile env inputFile cfg False a) =
           (if \<not> mkvmergeRun env (remuxArgs a cfg info inputFile) then Inl RemuxCommandFailed
            else if \<not> osRemove env inputFile then Inl DeleteOriginalFailed
            else Inr (outputFileName inputFile))"
    and "remuxFile env inputFile cfg True a = (Inr '''', [RunMkvmerge [''-J'', inputFile]])"
  using assms by (simp_all add: remuxFile_def Let_def)

lemma audioSelection_render:
  "concat (map renderInstr (audioSelection a ids)) =
     (if includesAudio a then
        (if ids = [] then [''--no-audio'']
         else [''--audio-tracks'', joinStrings (map showInt ids) '',''])
      else [])"
  by (simp add: audioSelection_def includesAudio_def)

lemma subtitleSelection_render:
  "concat (map renderInstr (subtitleSelection a ids)) =
     (if includesSubtitles a then
        (if ids = [] then [''--no-subtitles'']
         else [''--subtitle-tracks'', joinStrings (map showInt ids) '',''])
      else [])"
  by (simp add: subtitleSelection_def includesSubtitles_def)

lemma audio_option_present:
  assumes "includesAudio a"
  shows "keepAudioIds a cfg info = [] \<Longrightarrow>
           ''--no-audio'' \<in> set (remuxOptions a cfg info) \<and>
           ''--audio-tracks'' \<notin> set (remuxOptions a cfg info)"
    and "keepAudioIds a cfg info \<noteq> [] \<Longrightarrow>
           containsOption (remuxOptions a cfg info) ''--audio-tracks''
             (joinStrings (map showInt (keepAudioIds a cfg info)) '','') \<and>
           ''--no-audio'' \<notin> set (remuxOptions a cfg info)"
proof -
  let ?S = "concat (map renderInstr (subtitleSelection a (keepSubtitleIds a cfg info)))"
  let ?T = "concat (map renderInstr (concat (map (trackInstrs a cfg info) (Tracks info))))"
  have S: "''--no-audio'' \<notin> set ?S" "''--audio-tracks'' \<notin> set ?S"
    using idList_not_option [of "keepSubtitleIds a cfg info"]
    by (auto simp: subtitleSelection_render)
  have T: "''--no-audio'' \<notin> set ?T" "''--audio-tracks'' \<notin> set ?T"
    by (rule tracks_not_selection)+
  {
    assume empty: "keepAudioIds a cfg info = []"
    then have "remuxOptions a cfg info = [''--no-audio''] @ ?S @ ?T"
      using assms by (simp add: remuxOptions_eq audioSelection_render)
    with S T show "''--no-audio'' \<in> set (remuxOptions a cfg info) \<and>
           ''--audio-tracks'' \<notin> set (remuxOptions a cfg info)"
      by simp
  }
  {
    assume nonempty: "keepAudioIds a cfg info \<noteq> []"
    let ?v = "joinStrings (map showInt (keepAudioIds a cfg info)) '',''"
    from nonempty have eq: "remuxOptions a cfg info = [''--audio-tracks'', ?v] @ ?S @ ?T"
      using assms by (simp add: remuxOptions_eq audioSelection_render)
    have "containsOption ([''--audio-tracks'', ?v] @ ?S @ ?T) ''--audio-tracks'' ?v"
      by (rule containsOption_appendI1) simp
    moreover have "?v \<noteq> ''--no-audio''" by (rule idList_not_option)
    ultimately show "containsOption (remuxOptions a cfg info) ''--audio-tracks'' ?v \<and>
           ''--no-audio'' \<notin> set (remuxOptions a cfg info)"
      using S T unfolding eq by simp
  }
qed

lemma subtitle_option_present:
  assumes "includesSubtitles a"
  shows "keepSubtitleIds a cfg info = [] \<Longrightarrow>
           ''--no-subtitles'' \<in> set (remuxOptions a cfg info) \<and>
           ''--subtitle-tracks'' \<notin> set (remuxOptions a cfg info)"
    and "keepSubtitleIds a cfg info \<noteq> [] \<Longrightarrow>
           containsOption (remuxOptions a cfg info) ''--subtitle-tracks''
             (joinStrings (map showInt (keepSubtitleIds a cfg info)) '','') \<and>
           ''--no-subtitles'' \<notin> set (remuxOptions a cfg info)"
proof -
  let ?A = "concat (map renderInstr (audioSelection a (keepAudioIds a cfg info)))"
  let ?T = "concat (map renderInstr (concat (map (trackInstrs a cfg info) (Tracks info))))"
  have A: "''--no-subtitles'' \<notin> set ?A" "''--subtitle-tracks'' \<notin> set ?A"
    using idList_not_option [of "keepAudioIds a cfg info"]
    by (auto simp: audioSelection_render)
  have T: "''--no-subtitles'' \<notin> set ?T" "''--subtitle-tracks'' \<notin> set ?T"
    by (rule tracks_not_selection)+
  {
    assume empty: "keepSubtitleIds a cfg info = []"
    then have "remuxOptions a cfg info = ?A @ [''--no-subtitles''] @ ?T"
      using assms by (simp add: remuxOptions_eq subtitleSelection_render)
    with A T show "''--no-subtitles'' \<in> set (remuxOptions a cfg info) \<and>
           ''--subtitle-tracks'' \<notin> set (remuxOptions a cfg info)"
      by simp
  }
  {
    assume nonempty: "keepSubtitleIds a cfg info \<noteq> []"
    let ?v = "joinStrings (map showInt (keepSubtitleIds a cfg info)) '',''"
    from nonempty have eq: "remuxOptions a cfg info = ?A @ [''--subtitle-tracks'', ?v] @ ?T"
      using assms by (simp add: remuxOptions_eq subtitleSelection_render)
    have "containsOption ([''--subtitle-tracks'', ?v] @ ?T) ''--subtitle-tracks'' ?v"
      by (rule containsOption_appendI1) simp
    then have "containsOption (?A @ [''--subtitle-tracks'', ?v] @ ?T) ''--subtitle-tracks'' ?v"
      by (rule containsOption_appendI2)
    moreover have "?v \<noteq> ''--no-subtitles''" by (rule idList_not_option)
    ultimately show "containsOption (remuxOptions a cfg info) ''--subtitle-tracks'' ?v \<and>
           ''--no-subtitles'' \<notin> set (remuxOptions a cfg info)"
      using A T unfolding eq by simp
  }
qed

lemma plan_instr_iff:
  "instr \<in> set (remuxPlan a cfg info) =
     (instr \<in> set (audioSelection a (keepAudioIds a cfg info)) \<or>
      instr \<in> set (subtitleSelection a (keepSubtitleIds a cfg info)) \<or>
      (\<exists>t\<in>set (Tracks info). instr \<in> set (trackInstrs a cfg info t)))"
  by (auto simp: remuxPlan_eq)

lemma plan_default_iff:
  "SetDefaultTrack i yes \<in> set (remuxPlan a cfg info) =
     (includesAudio a \<and>
      (\<exists>t\<in>set (Tracks info). Type t = ''audio'' \<and> trackLanguage t \<in> set (AudioLanguages cfg) \<and>
         ID t = i \<and> yes = (trackLanguage t = DefaultAudio cfg)))"
  by (auto simp: plan_instr_iff audioSelection_def subtitleSelection_def trackInstrs_def
        includesAudio_def isInList_iff trackLanguage_def split: if_splits)

lemma plan_language_iff:
  "SetLanguage i lang \<in> set (remuxPlan a cfg info) =
     (includesAudio a \<and>
      (\<exists>v\<in>set (Tracks info). Type v = ''video'' \<and> ID v = i \<and>
         lang = fst (determineTargetVideoLanguage v info (VideoLanguage cfg))))"
  by (auto simp: plan_instr_iff audioSelection_def subtitleSelection_def trackInstrs_def
        includesAudio_def split: if_splits)

lemma tracks_language_option:
  assumes "v \<in> set ts" and "Type v = ''video''" and "includesAudio a"
  shows "containsOption
           (concat (map renderInstr (concat (map (trackInstrs a cfg info) ts))))
           ''--language''
           (showInt (ID v) @ '':'' @ fst (determineTargetVideoLanguage v info (VideoLanguage cfg)))"
proof -
  from assms(1) obtain ts1 ts2 where ts: "ts = ts1 @ v # ts2"
    by (auto simp: in_set_conv_decomp)
  let ?val = "showInt (ID v) @ '':'' @ fst (determineTargetVideoLanguage v info (VideoLanguage cfg))"
  have "concat (map renderInstr (trackInstrs a cfg info v)) = [''--language'', ?val]"
    using assms(2,3) by (simp add: trackInstrs_def includesAudio_def)
  then have "containsOption (concat (map renderInstr (trackInstrs a cfg info v))) ''--language'' ?val"
    by simp
  then have "containsOption
      (concat (map renderInstr (trackInstrs a cfg info v))
       @ concat (map renderInstr (concat (map (trackInstrs a cfg info) ts2))))
      ''--language'' ?val"
    by (rule containsOption_appendI1)
  then have "containsOption
      (concat (map renderInstr (concat (map (trackInstrs a cfg info) ts1)))
       @ concat (map renderInstr (trackInstrs a cfg info v))
       @ concat (map renderInstr (concat (map (trackInstrs a cfg info) ts2))))
      ''--language'' ?val"
    by (rule containsOption_appendI2)
  then show ?thesis by (simp add: ts)
qed

lemma no_language_option:
  assumes "\<not> includesAudio a"
  shows "''--language'' \<notin> set (remuxOptions a cfg info)"
proof -
  have "trackInstrs a cfg info t = []" for t
    using assms by (simp add: trackInstrs_def includesAudio_def)
  then have "concat (map (trackInstrs a cfg info) (Tracks info)) = []"
    by simp
  then show ?thesis
    using assms idList_not_option(5) [of "keepSubtitleIds a cfg info"]
    by (auto simp: remuxOptions_eq audioSelection_render subtitleSelection_render)
qed

lemma no_video_not_compliant:
  "videoTracks (Tracks info) = [] \<Longrightarrow> \<not> alreadyCompliant a cfg info"
  by (auto simp: alreadyCompliant_iff videoTracks_def filter_empty_conv)

lemma processJob_eq:
  "processJob env cfg checkOnly a c jobPath =
     (if fst (Check env c (jobCacheKey env a jobPath) jobPath) then (c, [])
      else case remuxFile env jobPath cfg checkOnly a of
             (Inl err, effects) \<Rightarrow> (c, effects)
           | (Inr finalPath, effects) \<Rightarrow>
               if finalPath \<noteq> ''''
               then (fst (Update env c (jobCacheKey env a jobPath) finalPath), effects)
               else (c, effects))"
  unfolding processJob_def jobCacheKey_def Let_def ..

lemma example_inspections:
  "mkvmergeInspect envEndToEnd ''/m/a.mkv'' = Some ''/m/a.mkv''"
  "jsonUnmarshal envEndToEnd ''/m/a.mkv'' = Some infoEndToEnd"
  "mkvmergeInspect envEngFre ''/m/a.mkv'' = Some ''/m/a.mkv''"
  "jsonUnmarshal envEngFre ''/m/a.mkv'' = Some infoEngFre"
  by (simp_all add: envEndToEnd_def envEngFre_def inspectTable_def)

lemma example_scopes:
  "includesAudio ActionAll" "includesSubtitles ActionAll"
  "includesAudio ActionAudio" "\<not> includesSubtitles ActionAudio"
  "\<not> includesAudio ActionSubtitle" "includesSubtitles ActionSubtitle"
  by (simp_all add: includesAudio_def includesSubtitles_def ActionAll_def ActionAudio_def
        ActionSubtitle_def)

lemma example_end_to_end:
  "\<not> alreadyCompliant ActionAll cfgEng infoEndToEnd"
  "keepAudioIds ActionAll cfgEng infoEndToEnd = [1, 2]"
  "keepSubtitleIds ActionAll cfgEng infoEndToEnd = []"
  "joinStrings (map showInt [1, 2]) '','' = ''1,2''"
  "remuxArgs ActionAll cfgEng infoEndToEnd ''/m/a.mkv'' =
     [''-o'', ''/m/a-remux.mkv'', ''--audio-tracks'', ''1,2'', ''--no-subtitles'',
      ''--language'', ''0:eng'', ''--default-track'', ''1:yes'', ''--default-track'', ''2:no'',
      ''/m/a.mkv'']"
  by code_simp+

lemma example_eng_fre:
  "\<not> alreadyCompliant ActionAll cfgEng infoEngFre"
  "\<not> alreadyCompliant ActionSubtitle cfgEng infoEndToEnd"
  "videoEng \<in> set (Tracks infoEngFre)"
  "Type videoEng = ''video''"
  "trackLanguage videoEng = ''eng''"
  "determineTargetVideoLanguage videoEng infoEngFre (VideoLanguage cfgEng) = (''eng'', False)"
  "showInt (ID videoEng) = ''0''"
  "remuxOptions ActionAll cfgEng infoEngFre =
     [''--no-audio'', ''--no-subtitles'', ''--language'', ''0:eng'']"
  "outputFileName ''/m/a.mkv'' = ''/m/a-remux.mkv''"
  by code_simp+

lemma example_audio:
  "distinct (map ID (Tracks infoEndToEnd))"
  "distinct (map ID (Tracks infoEngFre))"
  "mkTrack 1 ''audio'' ''eng'' False \<in> set (Tracks infoEndToEnd)"
  "mkTrack 1 ''audio'' ''fre'' True \<in> set (Tracks infoEngFre)"
  "AudioLanguages cfgEng = [''eng'', ''jpn'']"
  "DefaultAudio cfgEng = ''eng''"
  by (simp_all add: infoEndToEnd_def infoEngFre_def videoUnd_def videoEng_def cfgEng_def)

lemma example_no_video:
  "videoTracks (Tracks infoNoVideo) = []"
  "\<not> flagsTrack ActionAll cfgEng infoNoVideo (mkTrack 1 ''audio'' ''eng'' True)"
  "remuxArgs ActionAll cfgEng infoNoVideo ''/m/a.mkv'' =
     [''-o'', ''/m/a-remux.mkv'', ''--audio-tracks'', ''1'', ''--no-subtitles'',
      ''--default-track'', ''1:yes'', ''/m/a.mkv'']"
  by code_simp+

lemma example_no_video_env:
  "mkvmergeInspect envNoVideo ''/m/a.mkv'' = Some ''/m/a.mkv''"
  "jsonUnmarshal envNoVideo ''/m/a.mkv'' = Some infoNoVideo"
  "mkvmergeRun envNoVideo args"
  "osRemove envNoVideo p"
  "filepathAbs envNoVideo p = Some p"
  "osStatModTime envNoVideo ''/m/a.mkv'' = Some 1700000000"
  "osStatModTime envNoVideo ''/m/a-remux.mkv'' = Some 1700000100"
  "jobCacheKey envNoVideo ActionAll ''/m/a.mkv'' = ''all:/m/a.mkv''"
  "\<not> fst (Check envNoVideo emptyCache k ''/m/a.mkv'')"
  by (simp_all add: envNoVideo_def inspectTable_def statTable_def jobCacheKey_def ActionAll_def
        Check_true_iff emptyCache_def)

lemma example_save:
  "marshalEmpty (Items emptyCache) = Some ''{}''"
  "path emptyCache = ''.mkvfixer.cache''"
  "diskSaved ''.mkvfixer.cache'' = Some ''{}''"
  "contentsAt ''.mkvfixer.cache'' (SaveSteps marshalEmpty emptyCache diskSaved) =
     [Some '''', Some ''{'', Some ''{}'']"
  "Save marshalEmpty NoFault emptyCache diskSaved =
     (diskSaved(''.mkvfixer.cache'' \<mapsto> ''{}''), None)"
  "Save marshalEmpty NoFault emptyCache (diskSaved(''.mkvfixer.cache'' \<mapsto> ''{}'')) =
     (diskSaved(''.mkvfixer.cache'' \<mapsto> ''{}''), None)"
  "Save marshalEmpty (WriteFailsAfter 1) emptyCache diskSaved =
     (diskSaved(''.mkvfixer.cache'' \<mapsto> ''{''), Some WriteFailed)"
  by (simp_all add: marshalEmpty_def emptyCache_def diskSaved_def contentsAt_def SaveSteps_def
        osWriteFileSteps_def Save_def osWriteFile_def)

section \<open>Properties of applying a plan\<close>

lemma setField_sel [simp]:
  "ID (setField instr t) = ID t"
  "Type (setField instr t) = Type t"
  by (cases instr; simp)+

lemma fold_setField_sel [simp]:
  "ID (fold setField instrs t) = ID t"
  "Type (fold setField instrs t) = Type t"
  by (induction instrs arbitrary: t) simp_all

lemma remuxedTrack_sel [simp]:
  "ID (remuxedTrack a cfg info t) = ID t"
  "Type (remuxedTrack a cfg info t) = Type t"
  by (simp_all add: remuxedTrack_def)

lemma remuxedTrack_video:
  "Type t = ''video'' \<Longrightarrow> includesAudio a \<Longrightarrow>
     trackLanguage (remuxedTrack a cfg info t) =
       fst (determineTargetVideoLanguage t info (VideoLanguage cfg))"
  by (simp add: remuxedTrack_def trackInstrs_def includesAudio_def trackLanguage_def)

lemma remuxedTrack_audio:
  "Type t = ''audio'' \<Longrightarrow>
     trackLanguage (remuxedTrack a cfg info t) = trackLanguage t \<and>
     (includesAudio a \<and> trackLanguage t \<in> set (AudioLanguages cfg) \<longrightarrow>
        DefaultTrack (Properties (remuxedTrack a cfg info t)) = (trackLanguage t = DefaultAudio cfg))"
  by (simp add: remuxedTrack_def trackInstrs_def includesAudio_def trackLanguage_def isInList_iff)

lemma remuxedTrack_other:
  "Type t \<noteq> ''video'' \<Longrightarrow> Type t \<noteq> ''audio'' \<Longrightarrow> remuxedTrack a cfg info t = t"
  by (simp add: remuxedTrack_def trackInstrs_def)

text \<open>Instructions that name other ids leave a track alone.\<close>

lemma trackInstrs_other_id:
  "ID u \<noteq> ID y \<Longrightarrow> fold setField (trackInstrs a cfg info u) y = y"
  by (simp add: trackInstrs_def)

lemma tracks_other_ids:
  "\<forall>u\<in>set us. ID u \<noteq> ID y \<Longrightarrow>
     fold setField (concat (map (trackInstrs a cfg info) us)) y = y"
  by (induction us) (simp_all add: trackInstrs_other_id)

lemma tracks_own_instrs:
  "distinct (map ID us) \<Longrightarrow> x \<in> set us \<Longrightarrow>
     fold setField (concat (map (trackInstrs a cfg info) us)) x = remuxedTrack a cfg info x"
proof (induction us)
  case Nil
  then show ?case by simp
next
  case (Cons u us)
  show ?case
  proof (cases "u = x")
    case True
    from Cons.prems(1) True have "ID x \<notin> ID ` set us" by simp
    then have "\<forall>t\<in>set us. ID t \<noteq> ID (remuxedTrack a cfg info x)"
      by (metis imageI remuxedTrack_sel(1))
    from tracks_other_ids [OF this] True show ?thesis
      by (simp add: remuxedTrack_def)
  next
    case False
    with Cons.prems have x: "x \<in> set us" and "ID u \<noteq> ID x" by auto
    with Cons.IH Cons.prems(1) show ?thesis
      by (simp add: trackInstrs_other_id)
  qed
qed

lemma fold_setters:
  "\<forall>instr\<in>set instrs. applyInstr instr = map (setField instr) \<Longrightarrow>
     fold applyInstr instrs xs = map (fold setField instrs) xs"
  by (induction instrs arbitrary: xs) simp_all

lemma trackInstrs_setters:
  "instr \<in> set (trackInstrs a cfg info t) \<Longrightarrow> applyInstr instr = map (setField instr)"
  by (auto simp: trackInstrs_def split: if_splits)

lemma apply_track_instrs:
  assumes "distinct (map ID ts)" and "set xs \<subseteq> set ts"
  shows "fold applyInstr (concat (map (trackInstrs a cfg info) ts)) xs =
           map (remuxedTrack a cfg info) xs"
proof -
  have "\<forall>instr\<in>set (concat (map (trackInstrs a cfg info) ts)).
          applyInstr instr = map (setField instr)"
    by (auto dest: trackInstrs_setters)
  then have "fold applyInstr (concat (map (trackInstrs a cfg info) ts)) xs =
      map (fold setField (concat (map (trackInstrs a cfg info) ts))) xs"
    by (rule fold_setters)
  also have "\<dots> = map (remuxedTrack a cfg info) xs"
    using assms by (intro map_cong refl tracks_own_instrs) auto
  finally show ?thesis .
qed

text \<open>The two selections keep the tracks the policy allows.\<close>

lemma allowed_id_iff:
  assumes "distinct (map ID ts)" and "t \<in> set ts" and "Type t = ''audio''"
  shows "ID t \<in> set (map ID (allowedAudioTracks cfg ts)) \<longleftrightarrow>
           trackLanguage t \<in> set (AudioLanguages cfg)"
proof
  assume "ID t \<in> set (map ID (allowedAudioTracks cfg ts))"
  then obtain u where u: "u \<in> set ts" "ID u = ID t" "trackLanguage u \<in> set (AudioLanguages cfg)"
    by (auto simp: allowedAudioTracks_def)
  from assms(1) have "inj_on ID (set ts)" by (simp add: distinct_map)
  from inj_onD [OF this u(2,1) assms(2)] u(3) show "trackLanguage t \<in> set (AudioLanguages cfg)"
    by simp
next
  assume "trackLanguage t \<in> set (AudioLanguages cfg)"
  with assms(2,3) show "ID t \<in> set (map ID (allowedAudioTracks cfg ts))"
    by (simp add: allowedAudioTracks_def)
qed

lemma allowed_subtitle_id_iff:
  assumes "distinct (map ID ts)" and "t \<in> set ts" and "Type t = ''subtitles''"
  shows "ID t \<in> set (map ID (allowedSubtitleTracks cfg ts)) \<longleftrightarrow>
           trackLanguage t \<in> set (SubtitleLanguages cfg)"
proof
  assume "ID t \<in> set (map ID (allowedSubtitleTracks cfg ts))"
  then obtain u where u: "u \<in> set ts" "ID u = ID t"
      "trackLanguage u \<in> set (SubtitleLanguages cfg)"
    by (auto simp: allowedSubtitleTracks_def)
  from assms(1) have "inj_on ID (set ts)" by (simp add: distinct_map)
  from inj_onD [OF this u(2,1) assms(2)] u(3)
  show "trackLanguage t \<in> set (SubtitleLanguages cfg)"
    by simp
next
  assume "trackLanguage t \<in> set (SubtitleLanguages cfg)"
  with assms(2,3) show "ID t \<in> set (map ID (allowedSubtitleTracks cfg ts))"
    by (simp add: allowedSubtitleTracks_def)
qed

lemma apply_audio_selection:
  assumes "distinct (map ID (Tracks info))" and "set xs \<subseteq> set (Tracks info)"
  shows "fold applyInstr (audioSelection a (keepAudioIds a cfg info)) xs =
           filter (\<lambda>t. Type t = ''audio'' \<and> includesAudio a
                          \<longrightarrow> trackLanguage t \<in> set (AudioLanguages cfg)) xs"
proof (cases "includesAudio a")
  case False
  then show ?thesis by (simp add: audioSelection_def includesAudio_def)
next
  case scope: True
  let ?ids = "map ID (allowedAudioTracks cfg (Tracks info))"
  have iff: "ID t \<in> set ?ids \<longleftrightarrow> trackLanguage t \<in> set (AudioLanguages cfg)"
    if "t \<in> set xs" "Type t = ''audio''" for t
    using allowed_id_iff [OF assms(1) _ that(2)] that(1) assms(2) by blast
  show ?thesis
  proof (cases "?ids = []")
    case True
    with iff have "trackLanguage t \<notin> set (AudioLanguages cfg)"
      if "t \<in> set xs" "Type t = ''audio''" for t
      using that by (metis empty_iff list.set(1))
    then have "filter (\<lambda>t. Type t \<noteq> ''audio'') xs =
        filter (\<lambda>t. Type t = ''audio'' \<and> includesAudio a
                          \<longrightarrow> trackLanguage t \<in> set (AudioLanguages cfg)) xs"
      using scope by (intro filter_cong refl) auto
    with True \<open>includesAudio a\<close> show ?thesis
      by (simp add: audioSelection_def keepAudioIds_eq includesAudio_def)
  next
    case False
    have "filter (\<lambda>t. Type t = ''audio'' \<longrightarrow> ID t \<in> set ?ids) xs =
        filter (\<lambda>t. Type t = ''audio'' \<and> includesAudio a
                          \<longrightarrow> trackLanguage t \<in> set (AudioLanguages cfg)) xs"
      using iff \<open>includesAudio a\<close> by (intro filter_cong refl) blast
    with False \<open>includesAudio a\<close> show ?thesis
      by (simp add: audioSelection_def keepAudioIds_eq includesAudio_def)
  qed
qed

lemma apply_subtitle_selection:
  assumes "distinct (map ID (Tracks info))" and "set xs \<subseteq> set (Tracks info)"
  shows "fold applyInstr (subtitleSelection a (keepSubtitleIds a cfg info)) xs =
           filter (\<lambda>t. Type t = ''subtitles'' \<and> includesSubtitles a
                          \<longrightarrow> trackLanguage t \<in> set (SubtitleLanguages cfg)) xs"
proof (cases "includesSubtitles a")
  case False
  then show ?thesis by (simp add: subtitleSelection_def includesSubtitles_def)
next
  case scope: True
  let ?ids = "map ID (allowedSubtitleTracks cfg (Tracks info))"
  have iff: "ID t \<in> set ?ids \<longleftrightarrow> trackLanguage t \<in> set (SubtitleLanguages cfg)"
    if "t \<in> set xs" "Type t = ''subtitles''" for t
    using allowed_subtitle_id_iff [OF assms(1) _ that(2)] that(1) assms(2) by blast
  show ?thesis
  proof (cases "?ids = []")
    case True
    with iff have "trackLanguage t \<notin> set (SubtitleLanguages cfg)"
      if "t \<in> set xs" "Type t = ''subtitles''" for t
      using that by (metis empty_iff list.set(1))
    then have "filter (\<lambda>t. Type t \<noteq> ''subtitles'') xs =
        filter (\<lambda>t. Type t = ''subtitles'' \<and> includesSubtitles a
                          \<longrightarrow> trackLanguage t \<in> set (SubtitleLanguages cfg)) xs"
      using scope by (intro filter_cong refl) auto
    with True \<open>includesSubtitles a\<close> show ?thesis
      by (simp add: subtitleSelection_def keepSubtitleIds_eq includesSubtitles_def)
  next
    case False
    have "filter (\<lambda>t. Type t = ''subtitles'' \<longrightarrow> ID t \<in> set ?ids) xs =
        filter (\<lambda>t. Type t = ''subtitles'' \<and> includesSubtitles a
                          \<longrightarrow> trackLanguage t \<in> set (SubtitleLanguages cfg)) xs"
      using iff \<open>includesSubtitles a\<close> by (intro filter_cong refl) blast
    with False \<open>includesSubtitles a\<close> show ?thesis
      by (simp add: subtitleSelection_def keepSubtitleIds_eq includesSubtitles_def)
  qed
qed

text \<open>The track list after the plan: the kept tracks, each with its instructions applied.\<close>

lemma applyPlan_tracks:
  assumes "distinct (map ID (Tracks info))"
  shows "Tracks (applyPlan (remuxPlan a cfg info) info) =
           map (remuxedTrack a cfg info) (filter (keptTrack a cfg) (Tracks info))"
proof -
  let ?ts = "Tracks info"
  let ?keepA = "\<lambda>t. Type t = ''audio'' \<and> includesAudio a
                          \<longrightarrow> trackLanguage t \<in> set (AudioLanguages cfg)"
  let ?keepS = "\<lambda>t. Type t = ''subtitles'' \<and> includesSubtitles a
                          \<longrightarrow> trackLanguage t \<in> set (SubtitleLanguages cfg)"
  have 1: "fold applyInstr (audioSelection a (keepAudioIds a cfg info)) ?ts = filter ?keepA ?ts"
    by (rule apply_audio_selection [OF assms]) simp
  have 2: "fold applyInstr (subtitleSelection a (keepSubtitleIds a cfg info)) (filter ?keepA ?ts)
      = filter ?keepS (filter ?keepA ?ts)"
    by (rule apply_subtitle_selection [OF assms]) auto
  have 3: "fold applyInstr (concat (map (trackInstrs a cfg info) ?ts))
        (filter ?keepS (filter ?keepA ?ts))
      = map (remuxedTrack a cfg info) (filter ?keepS (filter ?keepA ?ts))"
    by (rule apply_track_instrs [OF assms]) auto
  have 4: "filter ?keepS (filter ?keepA ?ts) = filter (keptTrack a cfg) ?ts"
    by (auto simp: keptTrack_def intro: filter_cong)
  have "fold applyInstr (remuxPlan a cfg info) ?ts =
      fold applyInstr (concat (map (trackInstrs a cfg info) ?ts))
        (fold applyInstr (subtitleSelection a (keepSubtitleIds a cfg info))
          (fold applyInstr (audioSelection a (keepAudioIds a cfg info)) ?ts))"
    by (simp add: remuxPlan_eq)
  also have "\<dots> = map (remuxedTrack a cfg info) (filter ?keepS (filter ?keepA ?ts))"
    by (simp only: 1 2 3)
  also have "\<dots> = map (remuxedTrack a cfg info) (filter (keptTrack a cfg) ?ts)"
    by (simp only: 4)
  finally show ?thesis
    by (simp add: applyPlan_def)
qed

lemma determine_unflagged_iff:
  "\<not> snd (determineTargetVideoLanguage v info p) \<longleftrightarrow>
     trackLanguage v = p \<or>
     ((trackLanguage v = ''und'' \<or> trackLanguage v = ''unk'') \<and>
      p \<notin> set (audioLanguages (Tracks info)) \<and>
      (\<forall>l\<in>set (audioLanguages (Tracks info)). l = ''''))"
proof (cases "filter (\<lambda>l. l \<noteq> '''') (audioLanguages (Tracks info))")
  case Nil
  then have "\<forall>l\<in>set (audioLanguages (Tracks info)). l = ''''"
    by (auto simp: filter_empty_conv)
  with Nil show ?thesis
    by (simp add: determine_cases [of v info p])
next
  case (Cons l ls)
  from filter_eq_ConsD [OF Cons] have "l \<in> set (audioLanguages (Tracks info))" "l \<noteq> ''''"
    by auto
  then have "\<not> (\<forall>l\<in>set (audioLanguages (Tracks info)). l = '''')" by blast
  with Cons show ?thesis
    by (simp add: determine_cases [of v info p])
qed

lemma remuxed_audioLanguages:
  "audioLanguages (map (remuxedTrack a cfg info) xs) = audioLanguages xs"
  by (induction xs) (simp_all add: remuxedTrack_audio)

text \<open>Which tracks of the remuxed file the re-evaluation flags: video tracks only.\<close>

lemma reevaluated_flag:
  assumes "distinct (map ID (Tracks info))"
      and "x \<in> set (Tracks info)" and "keptTrack a cfg x"
  shows "flagsTrack a cfg (applyPlan (remuxPlan a cfg info) info) (remuxedTrack a cfg info x) \<longleftrightarrow>
           Type x = ''video'' \<and> includesAudio a \<and>
           \<not> (fst (determineTargetVideoLanguage x info (VideoLanguage cfg)) = VideoLanguage cfg \<or>
              ((fst (determineTargetVideoLanguage x info (VideoLanguage cfg)) = ''und'' \<or>
                fst (determineTargetVideoLanguage x info (VideoLanguage cfg)) = ''unk'') \<and>
               VideoLanguage cfg \<notin> set (keptAudioLanguages a cfg info) \<and>
               (\<forall>l\<in>set (keptAudioLanguages a cfg info). l = '''')))"
proof -
  let ?p = "VideoLanguage cfg"
  let ?info' = "applyPlan (remuxPlan a cfg info) info"
  let ?y = "remuxedTrack a cfg info x"
  have langs': "audioLanguages (Tracks ?info') = keptAudioLanguages a cfg info"
    by (simp add: applyPlan_tracks [OF assms(1)] remuxed_audioLanguages keptAudioLanguages_def)
  consider (video) "Type x = ''video''" | (audio) "Type x = ''audio''"
    | (subtitles) "Type x = ''subtitles''"
    | (other) "Type x \<noteq> ''video''" "Type x \<noteq> ''audio''" "Type x \<noteq> ''subtitles''"
    by blast
  then show ?thesis
  proof cases
    case video
    show ?thesis
    proof (cases "includesAudio a")
      case False
      with video show ?thesis by (simp add: flagsTrack_video)
    next
      case True
      with video have lang: "trackLanguage ?y = fst (determineTargetVideoLanguage x info ?p)"
        by (simp add: remuxedTrack_video)
      from video True have "flagsTrack a cfg ?info' ?y \<longleftrightarrow>
          snd (determineTargetVideoLanguage ?y ?info' ?p)"
        by (simp add: flagsTrack_video)
      also have "\<dots> \<longleftrightarrow> \<not> (trackLanguage ?y = ?p \<or>
          ((trackLanguage ?y = ''und'' \<or> trackLanguage ?y = ''unk'') \<and>
           ?p \<notin> set (audioLanguages (Tracks ?info')) \<and>
           (\<forall>l\<in>set (audioLanguages (Tracks ?info')). l = '''')))"
        using determine_unflagged_iff [of ?y ?info' ?p] by blast
      finally show ?thesis
        using video True by (simp only: lang langs' simp_thms)
    qed
  next
    case audio
    with assms(3) have "includesAudio a \<longrightarrow> trackLanguage x \<in> set (AudioLanguages cfg)"
      by (simp add: keptTrack_def)
    with audio remuxedTrack_audio [OF audio, of a cfg info] show ?thesis
      by (auto simp: flagsTrack_audio)
  next
    case subtitles
    with assms(3) have "includesSubtitles a \<longrightarrow> trackLanguage x \<in> set (SubtitleLanguages cfg)"
      by (simp add: keptTrack_def)
    moreover from subtitles have "remuxedTrack a cfg info x = x"
      by (simp add: remuxedTrack_other)
    ultimately show ?thesis using subtitles
      by (auto simp: flagsTrack_subtitles)
  next
    case other
    then show ?thesis by (simp add: flagsTrack_other)
  qed
qed

lemma example_reevaluation:
  "distinct (map ID (Tracks infoEndToEnd))"
  "videoTracks (Tracks infoEndToEnd) = [videoUnd]"
  "determineTargetVideoLanguage videoUnd infoEndToEnd ''eng'' = (''eng'', True)"
  "VideoLanguage cfgEng = ''eng''"
  "Tracks (applyPlan (remuxPlan ActionAll cfgEng infoEndToEnd) infoEndToEnd) =
     [mkTrack 0 ''video'' ''eng'' True, mkTrack 1 ''audio'' ''eng'' True,
      mkTrack 2 ''audio'' ''jpn'' False]"
  "distinct (map ID (Tracks infoUndUnd))"
  "videoTracks (Tracks infoUndUnd) = [videoUnd]"
  "determineTargetVideoLanguage videoUnd infoUndUnd ''eng'' = (''und'', True)"
  "VideoLanguage cfgEngOnly = ''eng''"
  "keptAudioLanguages ActionAll cfgEngOnly infoUndUnd = []"
  "Tracks (applyPlan (remuxPlan ActionAll cfgEngOnly infoUndUnd) infoUndUnd) = [videoUnd]"
  by code_simp+

section \<open>The claims\<close>

text \<open>
  Claim C1, as amended. A video track whose language equals the target video language,
  be it a sentinel or not, resolves to the target and is not flagged. For a video track
  whose language is the sentinel \<open>und\<close> or \<open>unk\<close> and differs from the target: if some
  audio track has the target language, the rule resolves to the target and flags the
  track; otherwise, if there is an audio track and the first one in declaration order
  has a non-empty language, it resolves to that language and flags the track; with no
  audio track at all it resolves to \<open>und\<close> and does not flag the track.
\<close>

theorem C1_inference_rule:
  "(trackLanguage v = p \<longrightarrow> determineTargetVideoLanguage v info p = (p, False)) \<and>
   ((trackLanguage v = ''und'' \<or> trackLanguage v = ''unk'') \<and> trackLanguage v \<noteq> p \<longrightarrow>
      (p \<in> set (audioLanguages (Tracks info)) \<longrightarrow>
         determineTargetVideoLanguage v info p = (p, True)) \<and>
      (p \<notin> set (audioLanguages (Tracks info)) \<longrightarrow>
         (\<forall>l ls. audioLanguages (Tracks info) = l # ls \<longrightarrow> l \<noteq> '''' \<longrightarrow>
            determineTargetVideoLanguage v info p = (l, True))) \<and>
      (audioLanguages (Tracks info) = [] \<longrightarrow>
         determineTargetVideoLanguage v info p = (''und'', False)))"
proof (intro conjI impI)
  assume "trackLanguage v = p"
  then show "determineTargetVideoLanguage v info p = (p, False)"
    by (rule determine_target)
next
  assume "(trackLanguage v = ''und'' \<or> trackLanguage v = ''unk'') \<and> trackLanguage v \<noteq> p"
  then have sentinel: "trackLanguage v = ''und'' \<or> trackLanguage v = ''unk''"
    and differs: "trackLanguage v \<noteq> p"
    by blast+
  note rule = determine_sentinel [OF sentinel differs, of info]
  show "determineTargetVideoLanguage v info p = (p, True)"
    if "p \<in> set (audioLanguages (Tracks info))"
    using rule that by simp
  show "\<forall>l ls. audioLanguages (Tracks info) = l # ls \<longrightarrow> l \<noteq> '''' \<longrightarrow>
      determineTargetVideoLanguage v info p = (l, True)"
    if "p \<notin> set (audioLanguages (Tracks info))"
    using rule that by simp
  show "determineTargetVideoLanguage v info p = (''und'', False)"
    if "audioLanguages (Tracks info) = []"
    using rule that by simp
qed

text \<open>
  The three examples of the spec: \<open>[video:und, audio:jpn, audio:eng]\<close> with target
  \<open>eng\<close> resolves to \<open>eng\<close>, \<open>[video:und, audio:jpn]\<close> to \<open>jpn\<close>, and \<open>[video:und]\<close>
  stays \<open>und\<close>, not flagged. The video track of \<open>[video:eng, audio:fre]\<close> has the target
  language and is not flagged.
\<close>

theorem C1_inference_rule_witness:
  "determineTargetVideoLanguage videoUnd infoUndJpnEng ''eng'' = (''eng'', True) \<and>
   determineTargetVideoLanguage videoUnd infoUndJpn ''eng'' = (''jpn'', True) \<and>
   determineTargetVideoLanguage videoUnd infoUndOnly ''eng'' = (''und'', False) \<and>
   determineTargetVideoLanguage videoEng infoEngFre ''eng'' = (''eng'', False)"
  using C1_inference_rule [of videoUnd "''eng''" infoUndJpnEng]
        C1_inference_rule [of videoUnd "''eng''" infoUndJpn]
        C1_inference_rule [of videoUnd "''eng''" infoUndOnly]
        C1_inference_rule [of videoEng "''eng''" infoEngFre]
  by (simp add: example_languages example_eng_fre(5))

text \<open>
  Claim C1 as stated fails when the target video language is itself the sentinel: for
  \<open>[video:und, audio:jpn]\<close> and target \<open>und\<close> no audio track has the target language
  and an audio track exists, so the claim resolves to \<open>jpn\<close>; the code's first test
  (the current language is the target) answers \<open>und\<close>.
\<close>

theorem C1_counterexample:
  "trackLanguage videoUnd = ''und'' \<and>
   audioLanguages (Tracks infoUndJpn) = [''jpn''] \<and>
   determineTargetVideoLanguage videoUnd infoUndJpn ''und'' = (''und'', False)"
  by (simp add: example_languages determine_target)




text \<open>
  Claim C3, as amended. Let the track ids of an inspection be pairwise distinct. The
  track list that the plan leaves (kept tracks, with the language overrides and default
  flags applied) is compliant under the same policy and scope exactly when the
  inspection has a video track and, if the scope includes audio, the language that the
  inference rule resolves for each video track is the target video language, or is
  \<open>und\<close> or \<open>unk\<close> while no audio track kept by the plan has the target language or a
  non-empty language.
\<close>

theorem C3_reevaluation:
  assumes "distinct (map ID (Tracks info))"
  shows "alreadyCompliant a cfg (applyPlan (remuxPlan a cfg info) info) \<longleftrightarrow>
           videoTracks (Tracks info) \<noteq> [] \<and>
           (includesAudio a \<longrightarrow>
              (\<forall>v\<in>set (videoTracks (Tracks info)).
                 fst (determineTargetVideoLanguage v info (VideoLanguage cfg)) = VideoLanguage cfg \<or>
                 ((fst (determineTargetVideoLanguage v info (VideoLanguage cfg)) = ''und'' \<or>
                   fst (determineTargetVideoLanguage v info (VideoLanguage cfg)) = ''unk'') \<and>
                  VideoLanguage cfg \<notin> set (keptAudioLanguages a cfg info) \<and>
                  (\<forall>l\<in>set (keptAudioLanguages a cfg info). l = ''''))))"
    (is "?compliant \<longleftrightarrow> ?hasVideo \<and> (includesAudio a \<longrightarrow> (\<forall>v\<in>set ?videos. ?settled v))")
proof -
  let ?info' = "applyPlan (remuxPlan a cfg info) info"
  have tracks': "Tracks ?info' =
      map (remuxedTrack a cfg info) (filter (keptTrack a cfg) (Tracks info))"
    by (rule applyPlan_tracks [OF assms])
  have kept: "keptTrack a cfg v" if "Type v = ''video''" for v
    using that by (simp add: keptTrack_def)
  have hasVideo: "(\<exists>t\<in>set (Tracks ?info'). Type t = ''video'') \<longleftrightarrow> ?hasVideo"
  proof
    assume "\<exists>t\<in>set (Tracks ?info'). Type t = ''video''"
    then obtain x where "x \<in> set (Tracks info)" "Type (remuxedTrack a cfg info x) = ''video''"
      unfolding tracks' by auto
    then show ?hasVideo
      by (auto simp: videoTracks_def filter_empty_conv)
  next
    assume ?hasVideo
    then obtain v where v: "v \<in> set (Tracks info)" "Type v = ''video''"
      by (auto simp: videoTracks_def filter_empty_conv)
    with kept have "remuxedTrack a cfg info v \<in> set (Tracks ?info')"
      unfolding tracks' by simp
    moreover have "Type (remuxedTrack a cfg info v) = ''video''" using v(2) by simp
    ultimately show "\<exists>t\<in>set (Tracks ?info'). Type t = ''video''" by blast
  qed
  have flags: "(\<forall>t\<in>set (Tracks ?info'). \<not> flagsTrack a cfg ?info' t) \<longleftrightarrow>
      (includesAudio a \<longrightarrow> (\<forall>v\<in>set ?videos. ?settled v))"
  proof
    assume none: "\<forall>t\<in>set (Tracks ?info'). \<not> flagsTrack a cfg ?info' t"
    show "includesAudio a \<longrightarrow> (\<forall>v\<in>set ?videos. ?settled v)"
    proof (intro impI ballI)
      fix v
      assume scope: "includesAudio a" and "v \<in> set ?videos"
      then have v: "v \<in> set (Tracks info)" "Type v = ''video''"
        by (simp_all add: videoTracks_def)
      with kept have "remuxedTrack a cfg info v \<in> set (Tracks ?info')"
        unfolding tracks' by simp
      with none have "\<not> flagsTrack a cfg ?info' (remuxedTrack a cfg info v)" by blast
      with reevaluated_flag [OF assms v(1) kept [OF v(2)]] v(2) scope
      show "?settled v" by blast
    qed
  next
    assume settled: "includesAudio a \<longrightarrow> (\<forall>v\<in>set ?videos. ?settled v)"
    show "\<forall>t\<in>set (Tracks ?info'). \<not> flagsTrack a cfg ?info' t"
    proof
      fix t
      assume "t \<in> set (Tracks ?info')"
      then obtain x where x: "x \<in> set (Tracks info)" "keptTrack a cfg x"
          "t = remuxedTrack a cfg info x"
        unfolding tracks' by auto
      show "\<not> flagsTrack a cfg ?info' t"
      proof
        assume "flagsTrack a cfg ?info' t"
        with reevaluated_flag [OF assms x(1,2)] x(3)
        have bad: "Type x = ''video''" "includesAudio a" "\<not> ?settled x"
          by blast+
        from bad(1) x(1) have "x \<in> set ?videos" by (simp add: videoTracks_def)
        with settled bad(2) have "?settled x" by blast
        with bad(3) show False by blast
      qed
    qed
  qed
  show ?thesis
    unfolding alreadyCompliant_iff hasVideo flags ..
qed

text \<open>
  The end-to-end example of the spec is not compliant; its plan leaves
  \<open>[video:eng, audio:eng (default), audio:jpn]\<close>, which is. For \<open>[video:und, audio:und]\<close>
  under a policy that allows only \<open>eng\<close> audio, rule 2 resolves the video track to
  \<open>und\<close>, the plan drops the audio track, and \<open>[video:und]\<close> is compliant.
\<close>

theorem C3_reevaluation_witness:
  "\<not> alreadyCompliant ActionAll cfgEng infoEndToEnd \<and>
   Tracks (applyPlan (remuxPlan ActionAll cfgEng infoEndToEnd) infoEndToEnd) =
     [mkTrack 0 ''video'' ''eng'' True, mkTrack 1 ''audio'' ''eng'' True,
      mkTrack 2 ''audio'' ''jpn'' False] \<and>
   alreadyCompliant ActionAll cfgEng
     (applyPlan (remuxPlan ActionAll cfgEng infoEndToEnd) infoEndToEnd) \<and>
   Tracks (applyPlan (remuxPlan ActionAll cfgEngOnly infoUndUnd) infoUndUnd) = [videoUnd] \<and>
   alreadyCompliant ActionAll cfgEngOnly
     (applyPlan (remuxPlan ActionAll cfgEngOnly infoUndUnd) infoUndUnd)"
  using C3_reevaluation [OF example_reevaluation(1), of ActionAll cfgEng]
        C3_reevaluation [OF example_reevaluation(6), of ActionAll cfgEngOnly]
  by (simp add: example_reevaluation example_end_to_end(1))

text \<open>
  Claim C3 as stated fails on the spec's own rule-2 example: \<open>[video:und, audio:jpn]\<close>
  under target \<open>eng\<close> with \<open>jpn\<close> the allowed and default audio language. The plan sets
  the video language to \<open>jpn\<close>, the first audio language; on re-evaluation \<open>jpn\<close> is a
  specific language other than the target, so the file is judged non-compliant again.
\<close>

theorem C3_counterexample:
  "\<not> alreadyCompliant ActionAll cfgJpn infoUndJpn \<and>
   distinct (map ID (Tracks infoUndJpn)) \<and>
   Tracks (applyPlan (remuxPlan ActionAll cfgJpn infoUndJpn) infoUndJpn) =
     [mkTrack 0 ''video'' ''jpn'' True, mkTrack 1 ''audio'' ''jpn'' True] \<and>
   \<not> alreadyCompliant ActionAll cfgJpn
       (applyPlan (remuxPlan ActionAll cfgJpn infoUndJpn) infoUndJpn)"
  by code_simp

text \<open>
  Claim C4. In an inspection whose track ids are pairwise distinct, under a scope that
  includes audio: an audio track whose language is not allowed makes the file
  non-compliant, its id is not in the audio keep-list, and the plan has no default-flag
  instruction for its id; an audio track whose language is allowed makes the file
  non-compliant when its default flag differs from (language = preferred default audio
  language), its id is in the keep-list, and the plan's default-flag instruction for
  its id is \<open>yes\<close> exactly when its language is the preferred default audio language
  (printed as \<open>--default-track id:yes\<close> or \<open>id:no\<close>).
\<close>

theorem C4_audio_tracks:
  assumes "distinct (map ID (Tracks info))"
      and "t \<in> set (Tracks info)" and "Type t = ''audio''" and "includesAudio a"
  shows "(trackLanguage t \<notin> set (AudioLanguages cfg) \<longrightarrow>
            \<not> alreadyCompliant a cfg info \<and>
            ID t \<notin> set (keepAudioIds a cfg info) \<and>
            (\<forall>yes. SetDefaultTrack (ID t) yes \<notin> set (remuxPlan a cfg info))) \<and>
         (trackLanguage t \<in> set (AudioLanguages cfg) \<longrightarrow>
            (DefaultTrack (Properties t) \<noteq> (trackLanguage t = DefaultAudio cfg) \<longrightarrow>
               \<not> alreadyCompliant a cfg info) \<and>
            ID t \<in> set (keepAudioIds a cfg info) \<and>
            (\<forall>yes. SetDefaultTrack (ID t) yes \<in> set (remuxPlan a cfg info) \<longleftrightarrow>
               yes = (trackLanguage t = DefaultAudio cfg)) \<and>
            renderInstr (SetDefaultTrack (ID t) (trackLanguage t = DefaultAudio cfg)) =
              [''--default-track'',
               showInt (ID t) @ (if trackLanguage t = DefaultAudio cfg then '':yes'' else '':no'')])"
proof -
  have inj: "inj_on ID (set (Tracks info))"
    using assms(1) by (simp add: distinct_map)
  have same: "u = t" if "u \<in> set (Tracks info)" "ID u = ID t" for u
    using inj_onD [OF inj that(2,1) assms(2)] .
  have keep: "ID t \<in> set (keepAudioIds a cfg info) \<longleftrightarrow>
      trackLanguage t \<in> set (AudioLanguages cfg)"
  proof
    assume "ID t \<in> set (keepAudioIds a cfg info)"
    then obtain u where u: "u \<in> set (Tracks info)" "ID u = ID t"
        "trackLanguage u \<in> set (AudioLanguages cfg)"
      using assms(4) by (auto simp: keepAudioIds_eq allowedAudioTracks_def)
    from same [OF u(1,2)] u(3) show "trackLanguage t \<in> set (AudioLanguages cfg)" by simp
  next
    assume "trackLanguage t \<in> set (AudioLanguages cfg)"
    with assms(2,3) have "t \<in> set (allowedAudioTracks cfg (Tracks info))"
      by (simp add: allowedAudioTracks_def)
    then show "ID t \<in> set (keepAudioIds a cfg info)"
      using assms(4) by (simp add: keepAudioIds_eq)
  qed
  have dflt: "SetDefaultTrack (ID t) yes \<in> set (remuxPlan a cfg info) \<longleftrightarrow>
      trackLanguage t \<in> set (AudioLanguages cfg) \<and> yes = (trackLanguage t = DefaultAudio cfg)"
    for yes
  proof
    assume "SetDefaultTrack (ID t) yes \<in> set (remuxPlan a cfg info)"
    then obtain u where u: "u \<in> set (Tracks info)" "ID u = ID t"
        "trackLanguage u \<in> set (AudioLanguages cfg)"
        "yes = (trackLanguage u = DefaultAudio cfg)"
      unfolding plan_default_iff by blast
    from same [OF u(1,2)] u(3,4)
    show "trackLanguage t \<in> set (AudioLanguages cfg) \<and>
        yes = (trackLanguage t = DefaultAudio cfg)" by simp
  next
    assume "trackLanguage t \<in> set (AudioLanguages cfg) \<and>
        yes = (trackLanguage t = DefaultAudio cfg)"
    with assms(2,3,4) show "SetDefaultTrack (ID t) yes \<in> set (remuxPlan a cfg info)"
      unfolding plan_default_iff by blast
  qed
  have flag: "flagsTrack a cfg info t \<Longrightarrow> \<not> alreadyCompliant a cfg info"
    using assms(2) by (auto simp: alreadyCompliant_iff)
  have flagged: "flagsTrack a cfg info t \<longleftrightarrow>
      trackLanguage t \<notin> set (AudioLanguages cfg) \<or>
      DefaultTrack (Properties t) \<noteq> (trackLanguage t = DefaultAudio cfg)"
    using assms(3,4) by (simp add: flagsTrack_audio)
  show ?thesis
  proof (intro conjI impI allI)
    assume "trackLanguage t \<notin> set (AudioLanguages cfg)"
    then show "\<not> alreadyCompliant a cfg info"
      and "ID t \<notin> set (keepAudioIds a cfg info)"
      and "SetDefaultTrack (ID t) yes \<notin> set (remuxPlan a cfg info)" for yes
      using flag flagged keep dflt by blast+
  next
    assume "trackLanguage t \<in> set (AudioLanguages cfg)"
      and "DefaultTrack (Properties t) \<noteq> (trackLanguage t = DefaultAudio cfg)"
    then show "\<not> alreadyCompliant a cfg info"
      using flag flagged by blast
  next
    assume allowed: "trackLanguage t \<in> set (AudioLanguages cfg)"
    then show "ID t \<in> set (keepAudioIds a cfg info)"
      using keep by blast
    show "SetDefaultTrack (ID t) yes \<in> set (remuxPlan a cfg info) \<longleftrightarrow>
        yes = (trackLanguage t = DefaultAudio cfg)" for yes
      using allowed dflt by blast
    show "renderInstr (SetDefaultTrack (ID t) (trackLanguage t = DefaultAudio cfg)) =
        [''--default-track'',
         showInt (ID t) @ (if trackLanguage t = DefaultAudio cfg then '':yes'' else '':no'')]"
      by simp
  qed
qed

text \<open>
  In the end-to-end example the \<open>eng\<close> audio track (id 1, not default) is kept and gets
  \<open>yes\<close>; in \<open>[video:eng, audio:fre]\<close> the \<open>fre\<close> track (id 1) is dropped and gets no
  default-flag instruction.
\<close>

theorem C4_audio_tracks_witness:
  "\<not> alreadyCompliant ActionAll cfgEng infoEndToEnd \<and>
   1 \<in> set (keepAudioIds ActionAll cfgEng infoEndToEnd) \<and>
   SetDefaultTrack 1 True \<in> set (remuxPlan ActionAll cfgEng infoEndToEnd) \<and>
   SetDefaultTrack 1 False \<notin> set (remuxPlan ActionAll cfgEng infoEndToEnd) \<and>
   \<not> alreadyCompliant ActionAll cfgEng infoEngFre \<and>
   1 \<notin> set (keepAudioIds ActionAll cfgEng infoEngFre) \<and>
   SetDefaultTrack 1 True \<notin> set (remuxPlan ActionAll cfgEng infoEngFre) \<and>
   SetDefaultTrack 1 False \<notin> set (remuxPlan ActionAll cfgEng infoEngFre)"
  using C4_audio_tracks [OF example_audio(1) example_audio(3) _ example_scopes(1), of cfgEng]
        C4_audio_tracks [OF example_audio(2) example_audio(4) _ example_scopes(1), of cfgEng]
  by (simp add: example_audio(5,6))

text \<open>
  Claim C5. For a file that is not already compliant and is not run check-only,
  \<^verbatim>\<open>remuxFile\<close> runs the external tool on \<open>remuxArgs\<close>: the output option, the options
  \<open>remuxOptions\<close> and the input file. Under a scope that includes audio the audio
  keep-list is the ids of the allowed audio tracks in declaration order; when it is
  empty the options contain \<open>--no-audio\<close> and no \<open>--audio-tracks\<close>, and when it is not
  they contain \<open>--audio-tracks\<close> followed by the comma-joined ids and no \<open>--no-audio\<close>.
  The same holds for subtitles under a scope that includes them.
\<close>

theorem C5_keep_list_or_drop_all:
  assumes "mkvmergeInspect env inputFile = Some output"
      and "jsonUnmarshal env output = Some info"
      and "\<not> alreadyCompliant a cfg info"
  shows "RunMkvmerge (remuxArgs a cfg info inputFile)
           \<in> set (snd (remuxFile env inputFile cfg False a)) \<and>
         remuxArgs a cfg info inputFile =
           ''-o'' # outputFileName inputFile # remuxOptions a cfg info @ [inputFile] \<and>
         (includesAudio a \<longrightarrow>
            keepAudioIds a cfg info = map ID (allowedAudioTracks cfg (Tracks info)) \<and>
            (keepAudioIds a cfg info = [] \<longrightarrow>
               ''--no-audio'' \<in> set (remuxOptions a cfg info) \<and>
               ''--audio-tracks'' \<notin> set (remuxOptions a cfg info)) \<and>
            (keepAudioIds a cfg info \<noteq> [] \<longrightarrow>
               containsOption (remuxOptions a cfg info) ''--audio-tracks''
                 (joinStrings (map showInt (keepAudioIds a cfg info)) '','') \<and>
               ''--no-audio'' \<notin> set (remuxOptions a cfg info))) \<and>
         (includesSubtitles a \<longrightarrow>
            keepSubtitleIds a cfg info = map ID (allowedSubtitleTracks cfg (Tracks info)) \<and>
            (keepSubtitleIds a cfg info = [] \<longrightarrow>
               ''--no-subtitles'' \<in> set (remuxOptions a cfg info) \<and>
               ''--subtitle-tracks'' \<notin> set (remuxOptions a cfg info)) \<and>
            (keepSubtitleIds a cfg info \<noteq> [] \<longrightarrow>
               containsOption (remuxOptions a cfg info) ''--subtitle-tracks''
                 (joinStrings (map showInt (keepSubtitleIds a cfg info)) '','') \<and>
               ''--no-subtitles'' \<notin> set (remuxOptions a cfg info)))"
proof (intro conjI impI)
  show "RunMkvmerge (remuxArgs a cfg info inputFile)
           \<in> set (snd (remuxFile env inputFile cfg False a))"
    by (simp add: remuxFile_noncompliant(1) [OF assms])
  show "remuxArgs a cfg info inputFile =
           ''-o'' # outputFileName inputFile # remuxOptions a cfg info @ [inputFile]"
    by (simp add: remuxArgs_def)
next
  assume "includesAudio a"
  then show "keepAudioIds a cfg info = map ID (allowedAudioTracks cfg (Tracks info))"
    by (simp add: keepAudioIds_eq)
next
  assume "includesSubtitles a"
  then show "keepSubtitleIds a cfg info = map ID (allowedSubtitleTracks cfg (Tracks info))"
    by (simp add: keepSubtitleIds_eq)
qed (use audio_option_present subtitle_option_present in blast)+

text \<open>
  The end-to-end example of the spec: both audio tracks are kept, the subtitle is
  dropped with \<open>--no-subtitles\<close>.
\<close>

theorem C5_keep_list_or_drop_all_witness:
  "RunMkvmerge [''-o'', ''/m/a-remux.mkv'', ''--audio-tracks'', ''1,2'', ''--no-subtitles'',
      ''--language'', ''0:eng'', ''--default-track'', ''1:yes'', ''--default-track'', ''2:no'',
      ''/m/a.mkv'']
     \<in> set (snd (remuxFile envEndToEnd ''/m/a.mkv'' cfgEng False ActionAll)) \<and>
   containsOption (remuxOptions ActionAll cfgEng infoEndToEnd) ''--audio-tracks'' ''1,2'' \<and>
   ''--no-audio'' \<notin> set (remuxOptions ActionAll cfgEng infoEndToEnd) \<and>
   ''--no-subtitles'' \<in> set (remuxOptions ActionAll cfgEng infoEndToEnd) \<and>
   ''--subtitle-tracks'' \<notin> set (remuxOptions ActionAll cfgEng infoEndToEnd)"
proof -
  note claim = C5_keep_list_or_drop_all [OF example_inspections(1,2) example_end_to_end(1)]
  have nonempty: "keepAudioIds ActionAll cfgEng infoEndToEnd \<noteq> []"
    by (simp add: example_end_to_end)
  have run: "RunMkvmerge (remuxArgs ActionAll cfgEng infoEndToEnd ''/m/a.mkv'')
      \<in> set (snd (remuxFile envEndToEnd ''/m/a.mkv'' cfgEng False ActionAll))"
    using claim by blast
  have audio: "containsOption (remuxOptions ActionAll cfgEng infoEndToEnd) ''--audio-tracks''
        (joinStrings (map showInt (keepAudioIds ActionAll cfgEng infoEndToEnd)) '','') \<and>
      ''--no-audio'' \<notin> set (remuxOptions ActionAll cfgEng infoEndToEnd)"
    using claim example_scopes(1) nonempty by blast
  have subtitles: "''--no-subtitles'' \<in> set (remuxOptions ActionAll cfgEng infoEndToEnd) \<and>
      ''--subtitle-tracks'' \<notin> set (remuxOptions ActionAll cfgEng infoEndToEnd)"
    using claim example_scopes(2) example_end_to_end(3) by blast
  from run audio subtitles show ?thesis
    by (simp only: example_end_to_end) simp
qed

text \<open>
  Claim C6, as amended. For a file that is not already compliant, under a scope that
  includes audio the command contains a \<open>--language\<close> option for every video track,
  carrying the resolved target language, whether or not it differs from the track's
  current language; under the subtitle-only scope the command contains no
  \<open>--language\<close> option.
\<close>

theorem C6_language_option:
  assumes "mkvmergeInspect env inputFile = Some output"
      and "jsonUnmarshal env output = Some info"
      and "\<not> alreadyCompliant a cfg info"
  shows "RunMkvmerge (''-o'' # outputFileName inputFile # remuxOptions a cfg info @ [inputFile])
           \<in> set (snd (remuxFile env inputFile cfg False a)) \<and>
         (includesAudio a \<longrightarrow>
            (\<forall>v\<in>set (Tracks info). Type v = ''video'' \<longrightarrow>
               containsOption (remuxOptions a cfg info) ''--language''
                 (showInt (ID v) @ '':'' @
                    fst (determineTargetVideoLanguage v info (VideoLanguage cfg))))) \<and>
         (\<not> includesAudio a \<longrightarrow> ''--language'' \<notin> set (remuxOptions a cfg info))"
proof (intro conjI impI ballI)
  show "RunMkvmerge (''-o'' # outputFileName inputFile # remuxOptions a cfg info @ [inputFile])
           \<in> set (snd (remuxFile env inputFile cfg False a))"
    by (simp add: remuxFile_noncompliant(1) [OF assms] remuxArgs_def)
next
  fix v
  assume "includesAudio a" "v \<in> set (Tracks info)" "Type v = ''video''"
  from tracks_language_option [OF this(2,3,1), of cfg info]
  have "containsOption
           (concat (map renderInstr (concat (map (trackInstrs a cfg info) (Tracks info)))))
           ''--language''
           (showInt (ID v) @ '':'' @ fst (determineTargetVideoLanguage v info (VideoLanguage cfg)))" .
  then show "containsOption (remuxOptions a cfg info) ''--language''
      (showInt (ID v) @ '':'' @ fst (determineTargetVideoLanguage v info (VideoLanguage cfg)))"
    unfolding remuxOptions_eq by (intro containsOption_appendI2)
next
  assume "\<not> includesAudio a"
  then show "''--language'' \<notin> set (remuxOptions a cfg info)"
    by (rule no_language_option)
qed

text \<open>
  \<open>[video:eng, audio:fre]\<close> under the policy with target \<open>eng\<close> and scope \<open>all\<close> is
  not compliant (the audio track is not allowed); its command carries \<open>--language 0:eng\<close>.
  Under the scope \<open>subtitle\<close> the end-to-end example's command carries no \<open>--language\<close>.
\<close>

theorem C6_language_option_witness:
  "RunMkvmerge [''-o'', ''/m/a-remux.mkv'', ''--no-audio'', ''--no-subtitles'', ''--language'',
      ''0:eng'', ''/m/a.mkv'']
     \<in> set (snd (remuxFile envEngFre ''/m/a.mkv'' cfgEng False ActionAll)) \<and>
   containsOption (remuxOptions ActionAll cfgEng infoEngFre) ''--language'' ''0:eng'' \<and>
   ''--language'' \<notin> set (remuxOptions ActionSubtitle cfgEng infoEndToEnd)"
proof -
  note claim1 = C6_language_option [OF example_inspections(3,4) example_eng_fre(1)]
  note claim2 = C6_language_option [OF example_inspections(1,2) example_eng_fre(2)]
  have run: "RunMkvmerge (''-o'' # outputFileName ''/m/a.mkv'' #
        remuxOptions ActionAll cfgEng infoEngFre @ [''/m/a.mkv''])
      \<in> set (snd (remuxFile envEngFre ''/m/a.mkv'' cfgEng False ActionAll))"
    using claim1 by blast
  have lang: "containsOption (remuxOptions ActionAll cfgEng infoEngFre) ''--language''
      (showInt (ID videoEng) @ '':'' @
         fst (determineTargetVideoLanguage videoEng infoEngFre (VideoLanguage cfgEng)))"
    using claim1 example_scopes(1) example_eng_fre(3,4) by blast
  have none: "''--language'' \<notin> set (remuxOptions ActionSubtitle cfgEng infoEndToEnd)"
    using claim2 example_scopes(5) by blast
  from run lang none show ?thesis
    by (simp only: example_eng_fre) simp
qed

text \<open>
  Claim C6 as stated fails on \<open>[video:eng, audio:fre]\<close>: the rule leaves the video
  track's language as it is (target \<open>eng\<close>, no fix needed), the file is not compliant
  because of its audio track, and the command built for it has \<open>--language 0:eng\<close>.
\<close>

theorem C6_counterexample:
  "\<not> alreadyCompliant ActionAll cfgEng infoEngFre \<and>
   trackLanguage videoEng = ''eng'' \<and>
   determineTargetVideoLanguage videoEng infoEngFre (VideoLanguage cfgEng) = (''eng'', False) \<and>
   remuxArgs ActionAll cfgEng infoEngFre ''/m/a.mkv'' =
     [''-o'', ''/m/a-remux.mkv'', ''--no-audio'', ''--no-subtitles'', ''--language'', ''0:eng'',
      ''/m/a.mkv'']"
  by (simp add: example_eng_fre remuxArgs_def)

text \<open>
  Claim C7, as amended. A file whose inspection has no video track is never judged
  compliant. In check-only mode \<^verbatim>\<open>remuxFile\<close> only inspects it and returns the empty
  path, and the worker leaves the cache as it was. Outside check-only mode the worker,
  unless the cache already vouches for the file, runs the remux command on it like on
  any non-compliant file; when the command and the deletion of the original succeed,
  the final path is the output file, and the modification time of the output file is
  stored under the job's cache key.
\<close>

theorem C7_no_video:
  assumes "mkvmergeInspect env inputFile = Some output"
      and "jsonUnmarshal env output = Some info"
      and "videoTracks (Tracks info) = []"
  shows "\<not> alreadyCompliant a cfg info \<and>
         remuxFile env inputFile cfg True a = (Inr '''', [RunMkvmerge [''-J'', inputFile]]) \<and>
         fst (processJob env cfg True a c inputFile) = c \<and>
         RunMkvmerge (remuxArgs a cfg info inputFile)
           \<in> set (snd (remuxFile env inputFile cfg False a)) \<and>
         (mkvmergeRun env (remuxArgs a cfg info inputFile) \<and> osRemove env inputFile \<longrightarrow>
            fst (remuxFile env inputFile cfg False a) = Inr (outputFileName inputFile)) \<and>
         (\<not> fst (Check env c (jobCacheKey env a inputFile) inputFile) \<and>
          mkvmergeRun env (remuxArgs a cfg info inputFile) \<and> osRemove env inputFile \<and>
          filepathAbs env (outputFileName inputFile) = Some absOut \<and>
          osStatModTime env absOut = Some modTime \<longrightarrow>
            RunMkvmerge (remuxArgs a cfg info inputFile)
              \<in> set (snd (processJob env cfg False a c inputFile)) \<and>
            Items (fst (processJob env cfg False a c inputFile)) (jobCacheKey env a inputFile)
              = Some modTime)"
proof -
  have nc: "\<not> alreadyCompliant a cfg info"
    using assms(3) by (rule no_video_not_compliant)
  note rf = remuxFile_noncompliant [OF assms(1,2) nc]
  have out: "outputFileName inputFile \<noteq> ''''"
    by (simp add: outputFileName_def Let_def)
  have checkOnly: "fst (processJob env cfg True a c inputFile) = c"
    by (simp add: processJob_eq rf(3))
  have cached: "RunMkvmerge (remuxArgs a cfg info inputFile)
              \<in> set (snd (processJob env cfg False a c inputFile)) \<and>
            Items (fst (processJob env cfg False a c inputFile)) (jobCacheKey env a inputFile)
              = Some modTime"
    if "\<not> fst (Check env c (jobCacheKey env a inputFile) inputFile)"
      and "mkvmergeRun env (remuxArgs a cfg info inputFile)" and "osRemove env inputFile"
      and "filepathAbs env (outputFileName inputFile) = Some absOut"
      and "osStatModTime env absOut = Some modTime"
  proof -
    have "remuxFile env inputFile cfg False a =
        (Inr (outputFileName inputFile),
         [RunMkvmerge [''-J'', inputFile], RunMkvmerge (remuxArgs a cfg info inputFile),
          RemoveFile inputFile])"
      using rf(1,2) that(2,3) by (simp add: prod_eq_iff)
    then show ?thesis
      using that(1) out by (simp add: processJob_eq Update_ok [OF that(4,5)])
  qed
  show ?thesis
    using nc rf checkOnly cached by simp
qed

text \<open>
  A file with one compliant audio track and no video track: check-only leaves the
  cache empty; a normal run remuxes it and caches the output file's modification time.
\<close>

theorem C7_no_video_witness:
  "\<not> alreadyCompliant ActionAll cfgEng infoNoVideo \<and>
   fst (processJob envNoVideo cfgEng True ActionAll emptyCache ''/m/a.mkv'') = emptyCache \<and>
   RunMkvmerge [''-o'', ''/m/a-remux.mkv'', ''--audio-tracks'', ''1'', ''--no-subtitles'',
      ''--default-track'', ''1:yes'', ''/m/a.mkv'']
     \<in> set (snd (processJob envNoVideo cfgEng False ActionAll emptyCache ''/m/a.mkv'')) \<and>
   Items (fst (processJob envNoVideo cfgEng False ActionAll emptyCache ''/m/a.mkv''))
     ''all:/m/a.mkv'' = Some 1700000100"
  using C7_no_video [OF example_no_video_env(1,2) example_no_video(1),
          of ActionAll cfgEng emptyCache "''/m/a-remux.mkv''" 1700000100]
  by (simp add: example_no_video_env example_no_video(3) example_eng_fre(9))

text \<open>
  Claim C7 as stated fails outside check-only mode: the file \<open>/m/a.mkv\<close> has no video
  track and one audio track that satisfies the policy; the worker remuxes it and
  enters the output file's modification time into the cache.
\<close>

theorem C7_counterexample:
  "videoTracks (Tracks infoNoVideo) = [] \<and>
   jsonUnmarshal envNoVideo ''/m/a.mkv'' = Some infoNoVideo \<and>
   \<not> flagsTrack ActionAll cfgEng infoNoVideo (mkTrack 1 ''audio'' ''eng'' True) \<and>
   snd (processJob envNoVideo cfgEng False ActionAll emptyCache ''/m/a.mkv'') =
     [RunMkvmerge [''-J'', ''/m/a.mkv''],
      RunMkvmerge [''-o'', ''/m/a-remux.mkv'', ''--audio-tracks'', ''1'', ''--no-subtitles'',
        ''--default-track'', ''1:yes'', ''/m/a.mkv''],
      RemoveFile ''/m/a.mkv''] \<and>
   Items (fst (processJob envNoVideo cfgEng False ActionAll emptyCache ''/m/a.mkv''))
     ''all:/m/a.mkv'' = Some 1700000100"
proof -
  have nc: "\<not> alreadyCompliant ActionAll cfgEng infoNoVideo"
    by (rule no_video_not_compliant) (rule example_no_video(1))
  note rf = remuxFile_noncompliant(1,2) [OF example_no_video_env(1,2) nc]
  have "remuxFile envNoVideo ''/m/a.mkv'' cfgEng False ActionAll =
      (Inr ''/m/a-remux.mkv'',
       [RunMkvmerge [''-J'', ''/m/a.mkv''],
        RunMkvmerge [''-o'', ''/m/a-remux.mkv'', ''--audio-tracks'', ''1'', ''--no-subtitles'',
          ''--default-track'', ''1:yes'', ''/m/a.mkv''],
        RemoveFile ''/m/a.mkv''])"
    using rf by (simp add: prod_eq_iff example_no_video_env example_no_video(3) example_eng_fre(9))
  then show ?thesis
    by (simp add: processJob_eq example_no_video_env example_no_video
          Update_ok [OF example_no_video_env(5,7)])
qed

text \<open>
  Claim C8. (1) After \<^verbatim>\<open>Update\<close> on a file that can be stat'ed, \<^verbatim>\<open>Check\<close> on the same
  key and the same file state is true. (2) \<^verbatim>\<open>Check\<close> is true exactly when the key has an
  entry equal to the file's current modification time. (3) If the modification time
  differs at the time of \<^verbatim>\<open>Check\<close>, it is false. (4) If the path cannot be made absolute
  or stat fails, \<^verbatim>\<open>Check\<close> is false, and the worker goes on to process the file: what it
  does is what \<^verbatim>\<open>remuxFile\<close> does.
\<close>

theorem C8_cache_check:
  "(filepathAbs env filePath = Some absPath \<and> osStatModTime env absPath = Some modTime \<longrightarrow>
      fst (Check env (fst (Update env c cacheKey filePath)) cacheKey filePath)) \<and>
   (fst (Check env c cacheKey filePath) =
      (\<exists>a m. filepathAbs env filePath = Some a \<and> osStatModTime env a = Some m \<and>
         Items c cacheKey = Some m)) \<and>
   (filepathAbs env filePath = Some absPath \<and> osStatModTime env absPath = Some modTime \<and>
    filepathAbs env' filePath = Some absPath \<and> osStatModTime env' absPath \<noteq> Some modTime \<longrightarrow>
      \<not> fst (Check env' (fst (Update env c cacheKey filePath)) cacheKey filePath)) \<and>
   (filepathAbs env filePath = None \<or>
    (filepathAbs env filePath = Some absPath \<and> osStatModTime env absPath = None) \<longrightarrow>
      \<not> fst (Check env c cacheKey filePath) \<and>
      snd (processJob env cfg checkOnly actionType c filePath) =
        snd (remuxFile env filePath cfg checkOnly actionType))"
proof (intro conjI impI)
  assume "filepathAbs env filePath = Some absPath \<and> osStatModTime env absPath = Some modTime"
  then show "fst (Check env (fst (Update env c cacheKey filePath)) cacheKey filePath)"
    by (simp add: Update_ok Check_true_iff)
next
  show "fst (Check env c cacheKey filePath) =
      (\<exists>a m. filepathAbs env filePath = Some a \<and> osStatModTime env a = Some m \<and>
         Items c cacheKey = Some m)"
    by (rule Check_true_iff)
next
  assume "filepathAbs env filePath = Some absPath \<and> osStatModTime env absPath = Some modTime \<and>
    filepathAbs env' filePath = Some absPath \<and> osStatModTime env' absPath \<noteq> Some modTime"
  then show "\<not> fst (Check env' (fst (Update env c cacheKey filePath)) cacheKey filePath)"
    by (auto simp: Update_ok Check_true_iff)
next
  assume fails: "filepathAbs env filePath = None \<or>
    (filepathAbs env filePath = Some absPath \<and> osStatModTime env absPath = None)"
  then show "\<not> fst (Check env c cacheKey filePath)"
    by (auto simp: Check_true_iff)
  from fails have "\<not> fst (Check env c k filePath)" for k
    by (auto simp: Check_true_iff)
  then show "snd (processJob env cfg checkOnly actionType c filePath) =
        snd (remuxFile env filePath cfg checkOnly actionType)"
    by (simp add: processJob_def Let_def split: prod.splits sum.splits)
qed

text \<open>
  On a file with modification time 1700000000: update then check is true; after a touch
  (1700000060) the check is false; with the file gone the check is false.
\<close>

theorem C8_cache_check_witness:
  "fst (Check envOneFile (fst (Update envOneFile emptyCache ''all:/m/a.mkv'' ''/m/a.mkv''))
        ''all:/m/a.mkv'' ''/m/a.mkv'') \<and>
   \<not> fst (Check envTouched (fst (Update envOneFile emptyCache ''all:/m/a.mkv'' ''/m/a.mkv''))
        ''all:/m/a.mkv'' ''/m/a.mkv'') \<and>
   \<not> fst (Check envNoFile (fst (Update envOneFile emptyCache ''all:/m/a.mkv'' ''/m/a.mkv''))
        ''all:/m/a.mkv'' ''/m/a.mkv'')"
  using C8_cache_check [of envOneFile "''/m/a.mkv''" "''/m/a.mkv''" 1700000000 emptyCache
          "''all:/m/a.mkv''" envTouched cfgEng False ActionAll]
        C8_cache_check [of envNoFile "''/m/a.mkv''" "''/m/a.mkv''" 1700000000
          "fst (Update envOneFile emptyCache ''all:/m/a.mkv'' ''/m/a.mkv'')"
          "''all:/m/a.mkv''" envTouched cfgEng False ActionAll]
  by (simp add: example_stats)

text \<open>
  Claim C9, as amended. Let the map marshal to \<open>data\<close>. \<^verbatim>\<open>Save\<close> is \<^verbatim>\<open>os.WriteFile\<close> of
  \<open>data\<close> on the cache file itself and returns its error: there is no temporary file and
  no rename, and no other file is touched, whatever happens. A \<^verbatim>\<open>Save\<close> that returns no
  error leaves exactly \<open>data\<close> in the cache file, and a second \<^verbatim>\<open>Save\<close> that returns no
  error leaves the same disk. A \<^verbatim>\<open>Save\<close> that returns an error leaves the cache file as it
  was or holding a prefix of \<open>data\<close>. While a write is in progress the cache file is
  empty first, holds a prefix of \<open>data\<close> at every point and \<open>data\<close> at the end.
\<close>

theorem C9_save_in_place:
  assumes "jsonMarshalIndent (Items c) = Some data"
  shows "Save jsonMarshalIndent fault c disk = osWriteFile fault (path c) data disk \<and>
         (snd (Save jsonMarshalIndent fault c disk) = None \<longleftrightarrow> fault = NoFault) \<and>
         (\<forall>other. other \<noteq> path c \<longrightarrow> fst (Save jsonMarshalIndent fault c disk) other = disk other) \<and>
         (snd (Save jsonMarshalIndent fault c disk) = None \<longrightarrow>
            fst (Save jsonMarshalIndent fault c disk) = disk(path c \<mapsto> data)) \<and>
         (snd (Save jsonMarshalIndent fault c disk) = None \<and>
          snd (Save jsonMarshalIndent fault' c (fst (Save jsonMarshalIndent fault c disk))) = None \<longrightarrow>
            fst (Save jsonMarshalIndent fault' c (fst (Save jsonMarshalIndent fault c disk)))
              = fst (Save jsonMarshalIndent fault c disk)) \<and>
         (snd (Save jsonMarshalIndent fault c disk) \<noteq> None \<longrightarrow>
            fst (Save jsonMarshalIndent fault c disk) (path c) = disk (path c) \<or>
            (\<exists>n\<le>length data.
               fst (Save jsonMarshalIndent fault c disk) (path c) = Some (take n data))) \<and>
         SaveSteps jsonMarshalIndent c disk \<noteq> [] \<and>
         hd (SaveSteps jsonMarshalIndent c disk) (path c) = Some '''' \<and>
         last (SaveSteps jsonMarshalIndent c disk) = disk(path c \<mapsto> data) \<and>
         (\<forall>d\<in>set (SaveSteps jsonMarshalIndent c disk).
            (\<exists>n\<le>length data. d (path c) = Some (take n data)) \<and>
            (\<forall>other. other \<noteq> path c \<longrightarrow> d other = disk other))"
proof -
  have steps: "SaveSteps jsonMarshalIndent c disk = osWriteFileSteps (path c) data disk"
    using assms by (simp add: SaveSteps_def)
  have save: "Save jsonMarshalIndent f c disk' = osWriteFile f (path c) data disk'" for f disk'
    using assms by (simp add: Save_def)
  have ok: "fst (Save jsonMarshalIndent f c disk') = disk'(path c \<mapsto> data)"
    if "snd (Save jsonMarshalIndent f c disk') = None" for f disk'
  proof -
    from that have "f = NoFault" by (simp add: save osWriteFile_error_iff)
    then show ?thesis by (simp add: save osWriteFile_NoFault)
  qed
  have 1: "Save jsonMarshalIndent fault c disk = osWriteFile fault (path c) data disk"
    by (rule save)
  have 2: "snd (Save jsonMarshalIndent fault c disk) = None \<longleftrightarrow> fault = NoFault"
    by (simp add: save osWriteFile_error_iff)
  have 3: "\<forall>other. other \<noteq> path c \<longrightarrow> fst (Save jsonMarshalIndent fault c disk) other = disk other"
    by (simp add: save osWriteFile_others)
  have 4: "snd (Save jsonMarshalIndent fault c disk) = None \<longrightarrow>
      fst (Save jsonMarshalIndent fault c disk) = disk(path c \<mapsto> data)"
    using ok by blast
  have 5: "snd (Save jsonMarshalIndent fault c disk) = None \<and>
      snd (Save jsonMarshalIndent fault' c (fst (Save jsonMarshalIndent fault c disk))) = None \<longrightarrow>
        fst (Save jsonMarshalIndent fault' c (fst (Save jsonMarshalIndent fault c disk)))
          = fst (Save jsonMarshalIndent fault c disk)"
  proof
    assume both: "snd (Save jsonMarshalIndent fault c disk) = None \<and>
      snd (Save jsonMarshalIndent fault' c (fst (Save jsonMarshalIndent fault c disk))) = None"
    then have first: "fst (Save jsonMarshalIndent fault c disk) = disk(path c \<mapsto> data)"
      using ok by blast
    from both have "fst (Save jsonMarshalIndent fault' c (fst (Save jsonMarshalIndent fault c disk)))
        = (fst (Save jsonMarshalIndent fault c disk))(path c \<mapsto> data)"
      using ok by blast
    with first show "fst (Save jsonMarshalIndent fault' c (fst (Save jsonMarshalIndent fault c disk)))
          = fst (Save jsonMarshalIndent fault c disk)"
      by simp
  qed
  have 6: "snd (Save jsonMarshalIndent fault c disk) \<noteq> None \<longrightarrow>
      fst (Save jsonMarshalIndent fault c disk) (path c) = disk (path c) \<or>
      (\<exists>n\<le>length data. fst (Save jsonMarshalIndent fault c disk) (path c) = Some (take n data))"
    unfolding save using osWriteFile_content [of fault "path c" data disk] by blast
  have 7: "SaveSteps jsonMarshalIndent c disk \<noteq> []"
    unfolding steps by (simp add: osWriteFileSteps_def del: upt_Suc)
  have 8: "hd (SaveSteps jsonMarshalIndent c disk) (path c) = Some ''''"
    unfolding steps by (simp add: osWriteFileSteps_hd)
  have 9: "last (SaveSteps jsonMarshalIndent c disk) = disk(path c \<mapsto> data)"
    unfolding steps by (rule osWriteFileSteps_last)
  have 10: "\<forall>d\<in>set (SaveSteps jsonMarshalIndent c disk).
            (\<exists>n\<le>length data. d (path c) = Some (take n data)) \<and>
            (\<forall>other. other \<noteq> path c \<longrightarrow> d other = disk other)"
    unfolding steps using osWriteFileSteps_elem by blast
  from 1 2 3 4 5 6 7 8 9 10 show ?thesis by blast
qed

text \<open>
  Saving the empty cache over an earlier save: without fault the file ends as \<open>{}\<close>,
  also when saved twice; a write that fails after one byte returns the error and leaves
  \<open>{\<close>; the write starts from the empty file.
\<close>

theorem C9_save_in_place_witness:
  "snd (Save marshalEmpty NoFault emptyCache diskSaved) = None \<and>
   fst (Save marshalEmpty NoFault emptyCache diskSaved) ''.mkvfixer.cache'' = Some ''{}'' \<and>
   fst (Save marshalEmpty NoFault emptyCache (fst (Save marshalEmpty NoFault emptyCache diskSaved)))
     = fst (Save marshalEmpty NoFault emptyCache diskSaved) \<and>
   snd (Save marshalEmpty (WriteFailsAfter 1) emptyCache diskSaved) = Some WriteFailed \<and>
   fst (Save marshalEmpty (WriteFailsAfter 1) emptyCache diskSaved) ''.mkvfixer.cache'' = Some ''{'' \<and>
   hd (SaveSteps marshalEmpty emptyCache diskSaved) ''.mkvfixer.cache'' = Some ''''"
proof -
  note claim = C9_save_in_place [of marshalEmpty emptyCache "''{}''" NoFault diskSaved NoFault,
      OF example_save(1)]
  have ok: "snd (Save marshalEmpty NoFault emptyCache diskSaved) = None"
    using claim by blast
  have ok2: "snd (Save marshalEmpty NoFault emptyCache
      (fst (Save marshalEmpty NoFault emptyCache diskSaved))) = None"
    by (simp add: example_save(5,6))
  have content: "fst (Save marshalEmpty NoFault emptyCache diskSaved)
      = diskSaved(path emptyCache \<mapsto> ''{}'')"
    using claim ok by blast
  have twice: "fst (Save marshalEmpty NoFault emptyCache
        (fst (Save marshalEmpty NoFault emptyCache diskSaved)))
      = fst (Save marshalEmpty NoFault emptyCache diskSaved)"
    using claim ok ok2 by blast
  have start: "hd (SaveSteps marshalEmpty emptyCache diskSaved) (path emptyCache) = Some []"
    using claim by blast
  from content have content': "fst (Save marshalEmpty NoFault emptyCache diskSaved)
      ''.mkvfixer.cache'' = Some ''{}''"
    by (simp add: example_save(2))
  have failed: "snd (Save marshalEmpty (WriteFailsAfter 1) emptyCache diskSaved) = Some WriteFailed \<and>
      fst (Save marshalEmpty (WriteFailsAfter 1) emptyCache diskSaved) ''.mkvfixer.cache''
        = Some ''{''"
    by (simp only: example_save(7)) simp
  from ok content' twice start failed show ?thesis
    by (simp only: example_save(2))
qed

text \<open>
  Claim C9 as stated fails: \<^verbatim>\<open>Save\<close> calls \<^verbatim>\<open>os.WriteFile\<close> on the cache file itself.
  With \<open>{}\<close> on disk from an earlier save, saving the empty cache takes the file through
  the empty content and \<open>{\<close> before it is \<open>{}\<close> again: an interruption at either
  point leaves a cache file that is neither the old nor the new content, and so does a
  write that fails after one byte.
\<close>

theorem C9_counterexample:
  "diskSaved ''.mkvfixer.cache'' = Some ''{}'' \<and>
   fst (Save marshalEmpty NoFault emptyCache diskSaved) ''.mkvfixer.cache'' = Some ''{}'' \<and>
   contentsAt ''.mkvfixer.cache'' (SaveSteps marshalEmpty emptyCache diskSaved) =
     [Some '''', Some ''{'', Some ''{}''] \<and>
   fst (Save marshalEmpty (WriteFailsAfter 1) emptyCache diskSaved) ''.mkvfixer.cache''
     = Some ''{''"
  by (simp only: example_save) simp

text \<open>
  Claim C10. When the path cannot be made absolute or stat fails, \<^verbatim>\<open>Update\<close> returns an
  error and the cache it leaves is the cache it was given.
\<close>

theorem C10_update_error_unchanged:
  assumes "filepathAbs env filePath = None \<or>
    (\<exists>absPath. filepathAbs env filePath = Some absPath \<and> osStatModTime env absPath = None)"
  shows "snd (Update env c cacheKey filePath) \<noteq> None \<and>
         fst (Update env c cacheKey filePath) = c"
  using assms by (auto simp: Update_def split: option.splits)

theorem C10_update_error_unchanged_witness:
  "snd (Update envNoFile (fst (Update envOneFile emptyCache ''all:/m/a.mkv'' ''/m/a.mkv''))
          ''all:/m/a.mkv'' ''/m/a.mkv'') = Some StatFailed \<and>
   fst (Update envNoFile (fst (Update envOneFile emptyCache ''all:/m/a.mkv'' ''/m/a.mkv''))
          ''all:/m/a.mkv'' ''/m/a.mkv'')
     = fst (Update envOneFile emptyCache ''all:/m/a.mkv'' ''/m/a.mkv'')"
  using C10_update_error_unchanged [of envNoFile "''/m/a.mkv''"
          "fst (Update envOneFile emptyCache ''all:/m/a.mkv'' ''/m/a.mkv'')" "''all:/m/a.mkv''"]
  by (simp add: example_stats Update_def)

end
